theory Spec2Isabelle
  imports Main
begin

section \<open>Values of the parsed XML tree\<close>

text \<open>
  The XML parts are turned by the XML library into plain JavaScript values: an element is an
  object whose keys are attribute names (prefixed \<open>@_\<close>), child element names and
  \<open>#text\<close>; a repeated element is an array; an empty element is the empty string; text
  is a string, a number or a boolean. Objects are association lists (the first binding of a
  key is the property). Numbers of the tree are integers here.
\<close>

datatype jv =
    JUndefined
  | JNull
  | JBool bool
  | JNum int
  | JStr string
  | JArr "jv list"
  | JObj "(string \<times> jv) list"

text \<open>JavaScript truthiness: \<open>undefined\<close>, \<open>null\<close>, \<open>false\<close>, \<open>0\<close> and
  the empty string are falsy, every array and object is truthy.\<close>

fun truthy :: "jv \<Rightarrow> bool" where
  "truthy JUndefined = False"
| "truthy JNull = False"
| "truthy (JBool b) = b"
| "truthy (JNum n) = (n \<noteq> 0)"
| "truthy (JStr s) = (s \<noteq> [])"
| "truthy (JArr xs) = True"
| "truthy (JObj kvs) = True"

fun isArray :: "jv \<Rightarrow> bool" where
  "isArray (JArr xs) = True"
| "isArray v = False"

text \<open>\<open>XMLParser.ensureArray\<close> (xml-parser.ts):
  \<^verbatim>\<open>if (!value) return []; return Array.isArray(value) ? value : [value]\<close>\<close>

fun ensureArray :: "jv \<Rightarrow> jv list" where
  "ensureArray v =
     (if \<not> truthy v then []
      else (case v of JArr xs \<Rightarrow> xs | _ \<Rightarrow> [v]))"

text \<open>Property access \<^verbatim>\<open>obj[key]\<close>: an own property of an object, \<open>undefined\<close>
  where the key is absent. The keys the parsers look up are element and attribute names;
  on a string, number, boolean or array such a key is \<open>undefined\<close>. (Reading a property
  of \<open>undefined\<close> or \<open>null\<close> raises a TypeError; the callers below guard against it
  or model the raise.)\<close>

fun getProp :: "jv \<Rightarrow> string \<Rightarrow> jv" where
  "getProp (JObj kvs) k = (case map_of kvs k of Some v \<Rightarrow> v | None \<Rightarrow> JUndefined)"
| "getProp v k = JUndefined"

text \<open>The operator \<^verbatim>\<open>a ?? b\<close>.\<close>

definition nullish :: "jv \<Rightarrow> jv \<Rightarrow> jv" where
  "nullish a b = (if a = JUndefined \<or> a = JNull then b else a)"

text \<open>\<^verbatim>\<open>s.split(c)\<close> for a one-character separator and \<^verbatim>\<open>parts.join(sep)\<close>.\<close>

fun split_js :: "char \<Rightarrow> string \<Rightarrow> string list" where
  "split_js c [] = [[]]"
| "split_js c (x # xs) =
     (if x = c then [] # split_js c xs
      else (case split_js c xs of
              p # ps \<Rightarrow> (x # p) # ps
            | [] \<Rightarrow> [[x]]))"

fun join_js :: "string \<Rightarrow> string list \<Rightarrow> string" where
  "join_js sep [] = []"
| "join_js sep [p] = p"
| "join_js sep (p # q # ps) = p @ sep @ join_js sep (q # ps)"

text \<open>\<^verbatim>\<open>name.includes(':') ? name.split(':')[1] : name\<close>\<close>

definition localNameOf :: "string \<Rightarrow> string" where
  "localNameOf name =
     (if CHR '':'' \<in> set name
      then (case split_js CHR '':'' name of _ # b # _ \<Rightarrow> b | _ \<Rightarrow> name)
      else name)"

text \<open>\<open>XMLParser.getAttr(element, name, defaultValue)\<close>; an omitted default is
  \<open>JUndefined\<close>.\<close>

definition getAttr :: "jv \<Rightarrow> string \<Rightarrow> jv \<Rightarrow> jv" where
  "getAttr element name defaultValue =
     (if \<not> truthy element then defaultValue
      else
        (let v = nullish (getProp element (''@_'' @ name)) (getProp element name)
         in if v = JUndefined
            then (let shortName = localNameOf name
                  in nullish (getProp element (''@_'' @ shortName))
                       (nullish (getProp element shortName) defaultValue))
            else nullish v defaultValue))"

text \<open>\<open>XMLParser.getChild(element, name)\<close>: the exact name first, then the local name
  under each known namespace prefix; a one-element array is unwrapped unless the local name
  is one of the always-array names.\<close>

definition namespaces :: "string list" where
  "namespaces = [''a:'', ''p:'', ''r:'', ''c:'', ''dgm:'', ''mc:'', ''w:'', ''wp:'', []]"

definition arrayElements :: "string list" where
  "arrayElements = [''p'', ''r'', ''t'', ''br'', ''fld'', ''gs'', ''lin'', ''tc'', ''sp'',
     ''pic'', ''graphicFrame'', ''grpSp'', ''cxnSp'']"

fun firstDefined :: "jv \<Rightarrow> string list \<Rightarrow> jv" where
  "firstDefined element [] = JUndefined"
| "firstDefined element (fullName # rest) =
     (if getProp element fullName \<noteq> JUndefined then getProp element fullName
      else firstDefined element rest)"

definition unwrapSingle :: "string \<Rightarrow> jv \<Rightarrow> jv" where
  "unwrapSingle name result =
     (case result of
        JArr [x] \<Rightarrow> (if localNameOf name \<notin> set arrayElements then x else result)
      | _ \<Rightarrow> result)"

definition getChild :: "jv \<Rightarrow> string \<Rightarrow> jv" where
  "getChild element name =
     (if \<not> truthy element then JUndefined
      else unwrapSingle name
        (if getProp element name \<noteq> JUndefined then getProp element name
         else firstDefined element (map (\<lambda>ns. ns @ localNameOf name) namespaces)))"

section \<open>Numbers, parseInt and string conversion\<close>

text \<open>
  A JavaScript number that \<^verbatim>\<open>parseInt\<close> returns is an integer or \<open>NaN\<close>. Integers are
  exact here; a JavaScript number holds an integer exactly up to magnitude \<open>2^53\<close>, so
  statements about values are made within that range.
\<close>

datatype jnum = NaN | Fin int

definition digit_char :: "nat \<Rightarrow> char" where
  "digit_char d = ''0123456789'' ! d"

function show_nat :: "nat \<Rightarrow> string" where
  "show_nat n = (if n < 10 then [digit_char n] else show_nat (n div 10) @ [digit_char (n mod 10)])"
  by pat_completeness auto
termination
  by (relation "measure id") auto

definition show_int :: "int \<Rightarrow> string" where
  "show_int i = (if i < 0 then CHR ''-'' # show_nat (nat (- i)) else show_nat (nat i))"

text \<open>\<open>ToString\<close>, which \<^verbatim>\<open>parseInt\<close> and template strings apply to their argument. An
  array is its elements joined by commas, \<open>undefined\<close> and \<open>null\<close> elements as the empty
  string. (A number of magnitude \<open>10^21\<close> or more would print with an exponent; the tree
  holds no such number.)\<close>

fun toStr :: "jv \<Rightarrow> string" where
  "toStr JUndefined = ''undefined''"
| "toStr JNull = ''null''"
| "toStr (JBool b) = (if b then ''true'' else ''false'')"
| "toStr (JNum n) = show_int n"
| "toStr (JStr s) = s"
| "toStr (JArr xs) =
     join_js '','' (map (\<lambda>x. if x = JUndefined \<or> x = JNull then [] else toStr x) xs)"
| "toStr (JObj kvs) = ''[object Object]''"

text \<open>\<^verbatim>\<open>parseInt(s, 10)\<close> and \<^verbatim>\<open>parseInt(s)\<close>: leading white space is skipped (the ASCII
  white space characters here), then an optional sign, then, without a radix, an optional
  \<open>0x\<close> prefix selecting base 16; the longest prefix of digits is the value, and no digit
  at all gives \<open>NaN\<close>.\<close>

definition isSpace :: "char \<Rightarrow> bool" where
  "isSpace c = (of_char c \<in> {9, 10, 11, 12, 13, 32 :: nat})"

definition isDigit :: "char \<Rightarrow> bool" where
  "isDigit c = (48 \<le> (of_char c :: nat) \<and> (of_char c :: nat) \<le> 57)"

definition isHexDigit :: "char \<Rightarrow> bool" where
  "isHexDigit c = (isDigit c \<or> (65 \<le> (of_char c :: nat) \<and> (of_char c :: nat) \<le> 70)
     \<or> (97 \<le> (of_char c :: nat) \<and> (of_char c :: nat) \<le> 102))"

definition digitVal :: "char \<Rightarrow> nat" where
  "digitVal c =
     (if isDigit c then of_char c - 48
      else if 97 \<le> (of_char c :: nat) then of_char c - 87
      else of_char c - 55)"

definition digitsVal :: "nat \<Rightarrow> string \<Rightarrow> nat" where
  "digitsVal radix ds = foldl (\<lambda>acc c. acc * radix + digitVal c) 0 ds"

definition stripSign :: "string \<Rightarrow> int \<times> string" where
  "stripSign s =
     (case s of
        c # r \<Rightarrow> (if c = CHR ''-'' then (- 1, r) else if c = CHR ''+'' then (1, r) else (1, s))
      | [] \<Rightarrow> (1, s))"

definition parseInt10 :: "string \<Rightarrow> jnum" where
  "parseInt10 s =
     (let (sign, r) = stripSign (dropWhile isSpace s);
          z = takeWhile isDigit r
      in if z = [] then NaN else Fin (sign * int (digitsVal 10 z)))"

definition parseIntAuto :: "string \<Rightarrow> jnum" where
  "parseIntAuto s =
     (let (sign, r) = stripSign (dropWhile isSpace s)
      in if take 2 r = ''0x'' \<or> take 2 r = ''0X''
         then (let z = takeWhile isHexDigit (drop 2 r)
               in if z = [] then NaN else Fin (sign * int (digitsVal 16 z)))
         else (let z = takeWhile isDigit r
               in if z = [] then NaN else Fin (sign * int (digitsVal 10 z))))"

text \<open>The operator \<^verbatim>\<open>a || b\<close>.\<close>

definition orElse :: "jv \<Rightarrow> jv \<Rightarrow> jv" where
  "orElse a b = (if truthy a then a else b)"

section \<open>parseColor\<close>

text \<open>
  The value of a parsed colour is a plain value, except for \<open>hslClr\<close>, whose value is the
  text \<^verbatim>\<open>hsl(${h / 60000}, ${s / 1000}%, ${l / 1000}%)\<close>: that text is kept as the three
  parsed numbers it is printed from.
\<close>

datatype ColorValue = Plain jv | HslText jnum jnum jnum

record ParsedColor =
  ctype :: string
  cvalue :: ColorValue
  alpha :: "jnum option"
  lumMod :: "jnum option"
  lumOff :: "jnum option"
  satMod :: "jnum option"
  shade :: "jnum option"
  tint :: "jnum option"

text \<open>\<open>XMLParser.parseColorModifier\<close>: \<open>None\<close> is \<open>undefined\<close>.\<close>

definition parseColorModifier :: "jv \<Rightarrow> string \<Rightarrow> jnum option" where
  "parseColorModifier colorElement modifierName =
     (let modifier = getChild colorElement modifierName
      in if \<not> truthy modifier then None
         else (let val = getAttr modifier ''val'' JUndefined
               in if \<not> truthy val then None else Some (parseInt10 (toStr val))))"

text \<open>The object \<^verbatim>\<open>{ type, value, ...parseModifiers(clrElement) }\<close>.\<close>

definition withModifiers :: "string \<Rightarrow> ColorValue \<Rightarrow> jv \<Rightarrow> ParsedColor" where
  "withModifiers t v clrElement =
     \<lparr> ctype = t, cvalue = v,
       alpha = parseColorModifier clrElement ''alpha'',
       lumMod = parseColorModifier clrElement ''lumMod'',
       lumOff = parseColorModifier clrElement ''lumOff'',
       satMod = parseColorModifier clrElement ''satMod'',
       shade = parseColorModifier clrElement ''shade'',
       tint = parseColorModifier clrElement ''tint'' \<rparr>"

text \<open>\<open>XMLParser.parseColor\<close>: \<open>None\<close> is \<open>null\<close>.\<close>

definition parseColor :: "jv \<Rightarrow> ParsedColor option" where
  "parseColor colorElement =
     (if \<not> truthy colorElement then None
      else
        (let srgbClr = getChild colorElement ''srgbClr'' in
         if truthy srgbClr
         then Some (withModifiers ''rgb''
                (Plain (JStr (''#'' @ toStr (orElse (getAttr srgbClr ''val'' JUndefined) (JStr ''000000'')))))
                srgbClr)
         else
        (let schemeClr = getChild colorElement ''schemeClr'' in
         if truthy schemeClr
         then Some (withModifiers ''scheme''
                (Plain (orElse (getAttr schemeClr ''val'' JUndefined) (JStr ''tx1''))) schemeClr)
         else
        (let prstClr = getChild colorElement ''prstClr'' in
         if truthy prstClr
         then Some (withModifiers ''preset''
                (Plain (orElse (getAttr prstClr ''val'' JUndefined) (JStr ''black''))) prstClr)
         else
        (let hslClr = getChild colorElement ''hslClr'' in
         if truthy hslClr
         then (let hue = orElse (getAttr hslClr ''hue'' JUndefined) (JStr ''0'');
                   sat = orElse (getAttr hslClr ''sat'' JUndefined) (JStr ''0'');
                   lum = orElse (getAttr hslClr ''lum'' JUndefined) (JStr ''0'')
               in Some (withModifiers ''hsl''
                    (HslText (parseIntAuto (toStr hue)) (parseIntAuto (toStr sat))
                       (parseIntAuto (toStr lum)))
                    hslClr))
         else
        (let sysClr = getChild colorElement ''sysClr'' in
         if truthy sysClr
         then (let lastClr = getAttr sysClr ''lastClr'' JUndefined
               in if truthy lastClr
                  then Some (withModifiers ''rgb'' (Plain (JStr (''#'' @ toStr lastClr))) sysClr)
                  else Some (withModifiers ''system''
                         (Plain (orElse (getAttr sysClr ''val'' JUndefined) (JStr ''windowText'')))
                         sysClr))
         else None))))))"

text \<open>The colour child that \<open>parseColor\<close> recognizes, in the claim's words: the first of
  \<open>srgbClr\<close>, \<open>schemeClr\<close>, \<open>prstClr\<close>, \<open>hslClr\<close>, \<open>sysClr\<close> that the element has;
  and the modifier of a given name in a parsed colour.\<close>

definition colorKinds :: "string list" where
  "colorKinds = [''srgbClr'', ''schemeClr'', ''prstClr'', ''hslClr'', ''sysClr'']"

definition recognizedChild :: "jv \<Rightarrow> jv option" where
  "recognizedChild colorElement = find truthy (map (getChild colorElement) colorKinds)"

definition modifierNames :: "string list" where
  "modifierNames = [''alpha'', ''lumMod'', ''lumOff'', ''satMod'', ''shade'', ''tint'']"

definition modifierOf :: "string \<Rightarrow> ParsedColor \<Rightarrow> jnum option" where
  "modifierOf name c =
     (if name = ''alpha'' then alpha c
      else if name = ''lumMod'' then lumMod c
      else if name = ''lumOff'' then lumOff c
      else if name = ''satMod'' then satMod c
      else if name = ''shade'' then shade c
      else if name = ''tint'' then tint c
      else None)"

section \<open>ensureArray\<close>

text \<open>
  Claim C6, as the code has it: an absent value (\<open>undefined\<close>, \<open>null\<close>) gives the empty
  sequence, an array is returned unchanged, and a truthy scalar is wrapped into a one-element
  sequence; a falsy scalar (the empty string, \<open>0\<close>, \<open>false\<close>) gives the empty sequence
  as well.
\<close>

theorem ensureArray_cases:
  "ensureArray JUndefined = [] \<and> ensureArray JNull = [] \<and>
   ensureArray (JArr xs) = xs \<and>
   (\<not> isArray v \<and> truthy v \<longrightarrow> ensureArray v = [v]) \<and>
   (\<not> truthy v \<longrightarrow> ensureArray v = [])"
  by (cases v) simp_all

theorem ensureArray_cases_witness:
  "ensureArray JUndefined = [] \<and> ensureArray JNull = [] \<and>
   ensureArray (JArr [JStr ''a'', JNum 0]) = [JStr ''a'', JNum 0] \<and>
   ensureArray (JObj [(''@_val'', JStr ''1'')]) = [JObj [(''@_val'', JStr ''1'')]] \<and>
   ensureArray (JNum 0) = []"
  using ensureArray_cases [of "[JStr ''a'', JNum 0]" "JObj [(''@_val'', JStr ''1'')]"]
        ensureArray_cases [of "[]" "JNum 0"]
  by simp

text \<open>The claim as stated fails on a falsy scalar: the empty string, which is what an empty
  element parses to, is a scalar and is not wrapped.\<close>

theorem ensureArray_falsy_scalar_counterexample:
  "\<not> isArray (JStr []) \<and> ensureArray (JStr []) \<noteq> [JStr []]"
  by simp

section \<open>Colour modifiers are carried through\<close>

definition sampleColor :: jv where
  "sampleColor = JObj [(''a:schemeClr'', JObj [(''@_val'', JStr ''accent1''),
      (''a:lumMod'', JObj [(''@_val'', JStr ''50000'')]),
      (''a:lumOff'', JObj [(''@_val'', JStr ''10000'')])])]"

declare show_nat.simps [simp del]

lemma less_ten_cases: "(d::nat) < 10 \<Longrightarrow> d \<in> {0, 1, 2, 3, 4, 5, 6, 7, 8, 9}"
  by auto

lemma digit_char_isDigit: "d < 10 \<Longrightarrow> isDigit (digit_char d)"
  by (drule less_ten_cases) (auto simp: isDigit_def digit_char_def)

lemma digitVal_digit_char: "d < 10 \<Longrightarrow> digitVal (digit_char d) = d"
  by (drule less_ten_cases) (auto simp: digitVal_def isDigit_def digit_char_def)

lemma show_nat_digits: "\<forall>c \<in> set (show_nat n). isDigit c"
proof (induction n rule: show_nat.induct)
  case (1 n)
  show ?case
  proof (cases "n < 10")
    case True
    then show ?thesis by (simp add: show_nat.simps [of n] digit_char_isDigit)
  next
    case False
    with 1 show ?thesis by (simp add: show_nat.simps [of n] digit_char_isDigit)
  qed
qed

lemma show_nat_nonempty: "show_nat n \<noteq> []"
  by (subst show_nat.simps) simp

lemma digitsVal_snoc: "digitsVal r (ds @ [c]) = digitsVal r ds * r + digitVal c"
  by (simp add: digitsVal_def)

lemma digitsVal_show_nat: "digitsVal 10 (show_nat n) = n"
proof (induction n rule: show_nat.induct)
  case (1 n)
  show ?case
  proof (cases "n < 10")
    case True
    then show ?thesis by (simp add: show_nat.simps [of n] digitsVal_def digitVal_digit_char)
  next
    case False
    with 1 have "digitsVal 10 (show_nat (n div 10)) = n div 10" by simp
    with False show ?thesis
      by (simp add: show_nat.simps [of n] digitsVal_snoc digitVal_digit_char)
  qed
qed

lemma isDigit_not_space: "isDigit c \<Longrightarrow> \<not> isSpace c"
  by (auto simp: isDigit_def isSpace_def)

lemma isDigit_not_sign: "isDigit c \<Longrightarrow> c \<noteq> CHR ''-'' \<and> c \<noteq> CHR ''+''"
  by (auto simp: isDigit_def)

lemma parseInt10_digits:
  assumes "ds \<noteq> []" "\<forall>c \<in> set ds. isDigit c"
  shows "parseInt10 ds = Fin (int (digitsVal 10 ds))"
proof -
  obtain c r where ds: "ds = c # r" using assms(1) by (cases ds) auto
  with assms(2) have c: "isDigit c" by simp
  have tw: "takeWhile isDigit ds = ds" using assms(2) by (simp add: takeWhile_eq_all_conv)
  have "dropWhile isSpace ds = ds" using c ds by (simp add: isDigit_not_space)
  moreover have "stripSign ds = (1, ds)" using c ds isDigit_not_sign [of c] by (simp add: stripSign_def)
  ultimately show ?thesis using assms(1) by (simp add: parseInt10_def Let_def tw)
qed

lemma parseInt10_neg_digits:
  assumes "ds \<noteq> []" "\<forall>c \<in> set ds. isDigit c"
  shows "parseInt10 (CHR ''-'' # ds) = Fin (- int (digitsVal 10 ds))"
proof -
  have tw: "takeWhile isDigit ds = ds" using assms(2) by (simp add: takeWhile_eq_all_conv)
  have "\<not> isSpace CHR ''-''" by (simp add: isSpace_def)
  then show ?thesis using assms(1) by (simp add: parseInt10_def stripSign_def Let_def tw)
qed

lemma parseInt10_show_int: "parseInt10 (show_int i) = Fin i"
proof (cases "i < 0")
  case True
  then show ?thesis
    using parseInt10_neg_digits [OF show_nat_nonempty show_nat_digits, of "nat (- i)"]
    by (simp add: show_int_def digitsVal_show_nat)
next
  case False
  then show ?thesis
    using parseInt10_digits [OF show_nat_nonempty show_nat_digits, of "nat i"]
    by (simp add: show_int_def digitsVal_show_nat)
qed


lemma show_int_nonempty: "show_int n \<noteq> []"
  by (simp add: show_int_def show_nat_nonempty)

lemma parseColorModifier_val:
  assumes "getAttr (getChild clr name) ''val'' JUndefined = JStr (show_int n)"
  shows "parseColorModifier clr name = Some (Fin n)"
proof -
  have "truthy (getChild clr name)"
  proof (rule ccontr)
    assume "\<not> truthy (getChild clr name)"
    then have "getAttr (getChild clr name) ''val'' JUndefined = JUndefined"
      by (simp add: getAttr_def)
    with assms show False by simp
  qed
  then show ?thesis
    using assms by (simp add: parseColorModifier_def Let_def show_int_nonempty parseInt10_show_int)
qed

lemma modifierOf_withModifiers:
  "name \<in> set modifierNames \<Longrightarrow>
   modifierOf name (withModifiers t v clr) = parseColorModifier clr name"
  by (auto simp: modifierNames_def modifierOf_def withModifiers_def)

lemma getChild_falsy: "\<not> truthy e \<Longrightarrow> getChild e name = JUndefined"
  by (simp add: getChild_def)

lemma parseColor_recognized:
  assumes "recognizedChild ce = Some clr"
  shows "\<exists>t v. parseColor ce = Some (withModifiers t v clr)"
proof -
  have ce: "truthy ce"
  proof (rule ccontr)
    assume "\<not> truthy ce"
    then have "recognizedChild ce = None"
      by (simp add: recognizedChild_def colorKinds_def getChild_falsy)
    with assms show False by simp
  qed
  from assms show ?thesis
    unfolding recognizedChild_def colorKinds_def parseColor_def Let_def
    using ce by (auto split: if_splits)
qed

lemma parseColor_unrecognized:
  assumes "recognizedChild ce = None"
  shows "parseColor ce = None"
  using assms unfolding recognizedChild_def colorKinds_def parseColor_def Let_def
  by (simp add: getChild_falsy split: if_splits)

text \<open>
  Claim C4: when the recognized colour child of an element has a modifier child (\<open>alpha\<close>,
  \<open>lumMod\<close>, \<open>lumOff\<close>, \<open>satMod\<close>, \<open>shade\<close>, \<open>tint\<close>) whose \<open>val\<close> attribute
  is the decimal text of an integer \<open>n\<close>, the parsed colour holds exactly \<open>n\<close> for that
  modifier, unconverted; and \<open>parseColor\<close> returns null when the element has no recognized
  colour child.
\<close>

theorem parseColor_carries_modifiers:
  "(recognizedChild ce = Some clr \<and> name \<in> set modifierNames \<and>
    getAttr (getChild clr name) ''val'' JUndefined = JStr (show_int n) \<and> \<bar>n\<bar> \<le> 2 ^ 53
    \<longrightarrow> (\<exists>c. parseColor ce = Some c \<and> modifierOf name c = Some (Fin n))) \<and>
   (recognizedChild ce = None \<longrightarrow> parseColor ce = None)"
proof (intro conjI impI)
  assume h: "recognizedChild ce = Some clr \<and> name \<in> set modifierNames \<and>
    getAttr (getChild clr name) ''val'' JUndefined = JStr (show_int n) \<and> \<bar>n\<bar> \<le> 2 ^ 53"
  then obtain t v where "parseColor ce = Some (withModifiers t v clr)"
    using parseColor_recognized by blast
  moreover have "modifierOf name (withModifiers t v clr) = Some (Fin n)"
    using h by (simp add: modifierOf_withModifiers parseColorModifier_val)
  ultimately show "\<exists>c. parseColor ce = Some c \<and> modifierOf name c = Some (Fin n)"
    by blast
next
  assume "recognizedChild ce = None"
  then show "parseColor ce = None" by (rule parseColor_unrecognized)
qed


theorem parseColor_carries_modifiers_witness:
  "(\<exists>c. parseColor sampleColor = Some c \<and> lumMod c = Some (Fin 50000) \<and>
        lumOff c = Some (Fin 10000)) \<and>
   parseColor (JObj [(''a:ln'', JStr [])]) = None"
proof -
  let ?clr = "JObj [(''@_val'', JStr ''accent1''),
      (''a:lumMod'', JObj [(''@_val'', JStr ''50000'')]),
      (''a:lumOff'', JObj [(''@_val'', JStr ''10000'')])]"
  have r: "recognizedChild sampleColor = Some ?clr"
    unfolding sampleColor_def by code_simp
  have m: "''lumMod'' \<in> set modifierNames" "''lumOff'' \<in> set modifierNames"
    by (simp_all add: modifierNames_def)
  have s: "show_int 50000 = ''50000''" "show_int 10000 = ''10000''"
    by (simp_all add: show_int_def show_nat.simps digit_char_def)
  have a: "getAttr (getChild ?clr ''lumMod'') ''val'' JUndefined = JStr (show_int 50000)"
    unfolding s by code_simp
  have b: "getAttr (getChild ?clr ''lumOff'') ''val'' JUndefined = JStr (show_int 10000)"
    unfolding s by code_simp
  have n: "recognizedChild (JObj [(''a:ln'', JStr [])]) = None"
    by code_simp
  have "\<exists>c. parseColor sampleColor = Some c \<and> modifierOf ''lumMod'' c = Some (Fin 50000)"
    using parseColor_carries_modifiers [of sampleColor ?clr "''lumMod''" 50000] r m(1) a
    by simp
  then obtain c where c: "parseColor sampleColor = Some c"
      "modifierOf ''lumMod'' c = Some (Fin 50000)"
    by blast
  have "\<exists>c. parseColor sampleColor = Some c \<and> modifierOf ''lumOff'' c = Some (Fin 10000)"
    using parseColor_carries_modifiers [of sampleColor ?clr "''lumOff''" 10000] r m(2) b
    by simp
  then obtain c' where c': "parseColor sampleColor = Some c'"
      "modifierOf ''lumOff'' c' = Some (Fin 10000)"
    by blast
  from c c' have "lumMod c = Some (Fin 50000) \<and> lumOff c = Some (Fin 10000)"
    by (simp add: modifierOf_def)
  moreover have "parseColor (JObj [(''a:ln'', JStr [])]) = None"
    using parseColor_carries_modifiers [of "JObj [(''a:ln'', JStr [])]"] n by simp
  ultimately show ?thesis using c(1) by blast
qed

section \<open>Theme colour scheme\<close>

text \<open>
  A theme colour as \<open>parseThemeColor\<close> builds it: \<^verbatim>\<open>{ type, value, alpha }\<close>, or
  \<^verbatim>\<open>{ type: 'rgb', value: '#000000' }\<close> (no alpha) when \<open>parseColor\<close> returns null.
\<close>

record Color =
  color_type :: string
  color_value :: ColorValue
  color_alpha :: "jnum option"

text \<open>The colour scheme: its name and the object literal of the slots, in the order the
  literal is written.\<close>

record ColorScheme =
  scheme_name :: jv
  colors :: "(string \<times> Color) list"

definition parseThemeColor :: "jv \<Rightarrow> string \<Rightarrow> Color" where
  "parseThemeColor clrScheme name =
     (let element = getChild clrScheme name
      in case parseColor element of
           Some color \<Rightarrow>
             \<lparr> color_type = ctype color, color_value = cvalue color, color_alpha = alpha color \<rparr>
         | None \<Rightarrow>
             \<lparr> color_type = ''rgb'', color_value = Plain (JStr ''#000000''), color_alpha = None \<rparr>)"

definition parseColorScheme :: "jv \<Rightarrow> ColorScheme" where
  "parseColorScheme clrScheme =
     \<lparr> scheme_name = orElse (getAttr clrScheme ''name'' JUndefined) (JStr ''Default''),
       colors =
         [(''dk1'', parseThemeColor clrScheme ''dk1''),
          (''lt1'', parseThemeColor clrScheme ''lt1''),
          (''dk2'', parseThemeColor clrScheme ''dk2''),
          (''lt2'', parseThemeColor clrScheme ''lt2''),
          (''accent1'', parseThemeColor clrScheme ''accent1''),
          (''accent2'', parseThemeColor clrScheme ''accent2''),
          (''accent3'', parseThemeColor clrScheme ''accent3''),
          (''accent4'', parseThemeColor clrScheme ''accent4''),
          (''accent5'', parseThemeColor clrScheme ''accent5''),
          (''accent6'', parseThemeColor clrScheme ''accent6''),
          (''hlink'', parseThemeColor clrScheme ''hlink''),
          (''folHlink'', parseThemeColor clrScheme ''folHlink'')] \<rparr>"

text \<open>The twelve slot names of the data model, and the table of default Office theme
  colours of the repository (\<open>DEFAULT_THEME_COLORS\<close> in color-resolver.ts, the twelve slots
  of it).\<close>

definition slotNames :: "string list" where
  "slotNames = [''dk1'', ''lt1'', ''dk2'', ''lt2'', ''accent1'', ''accent2'', ''accent3'',
     ''accent4'', ''accent5'', ''accent6'', ''hlink'', ''folHlink'']"

definition DEFAULT_THEME_COLORS :: "(string \<times> string) list" where
  "DEFAULT_THEME_COLORS =
     [(''dk1'', ''#000000''), (''lt1'', ''#FFFFFF''), (''dk2'', ''#1F497D''),
      (''lt2'', ''#EEECE1''), (''accent1'', ''#4472C4''), (''accent2'', ''#ED7D31''),
      (''accent3'', ''#A5A5A5''), (''accent4'', ''#FFC000''), (''accent5'', ''#5B9BD5''),
      (''accent6'', ''#70AD47''), (''hlink'', ''#0563C1''), (''folHlink'', ''#954F72'')]"

definition blackColor :: Color where
  "blackColor = \<lparr> color_type = ''rgb'', color_value = Plain (JStr ''#000000''),
     color_alpha = None \<rparr>"

text \<open>A colour scheme element with every slot but \<open>accent3\<close>.\<close>

definition srgb :: "string \<Rightarrow> jv" where
  "srgb hex = JObj [(''a:srgbClr'', JObj [(''@_val'', JStr hex)])]"

definition schemeNoAccent3 :: jv where
  "schemeNoAccent3 = JObj
     [(''@_name'', JStr ''Office''),
      (''a:dk1'', srgb ''111111''), (''a:lt1'', srgb ''FEFEFE''),
      (''a:dk2'', srgb ''44546A''), (''a:lt2'', srgb ''E7E6E6''),
      (''a:accent1'', srgb ''4472C4''), (''a:accent2'', srgb ''ED7D31''),
      (''a:accent4'', srgb ''FFC000''), (''a:accent5'', srgb ''5B9BD5''),
      (''a:accent6'', srgb ''70AD47''), (''a:hlink'', srgb ''0563C1''),
      (''a:folHlink'', srgb ''954F72'')]"

lemma parseThemeColor_None:
  "parseColor (getChild clrScheme slot) = None \<Longrightarrow> parseThemeColor clrScheme slot = blackColor"
  by (simp add: parseThemeColor_def blackColor_def)

lemma parseThemeColor_Some:
  "parseColor (getChild clrScheme slot) = Some c \<Longrightarrow>
   parseThemeColor clrScheme slot =
     \<lparr> color_type = ctype c, color_value = cvalue c, color_alpha = alpha c \<rparr>"
  by (simp add: parseThemeColor_def)

lemma colors_map_of:
  "slot \<in> set slotNames \<Longrightarrow>
   map_of (colors (parseColorScheme clrScheme)) slot = Some (parseThemeColor clrScheme slot)"
  by (auto simp: slotNames_def parseColorScheme_def)

text \<open>
  Claim C2, as the code has it: the colour scheme has exactly the twelve fixed slots, each
  holding a colour; a slot whose child element is missing or carries no recognized colour is
  filled with the one fixed colour rgb \<open>#000000\<close>, whichever slot it is.
\<close>

theorem parseColorScheme_slots:
  "map fst (colors (parseColorScheme clrScheme)) = slotNames \<and>
   length (colors (parseColorScheme clrScheme)) = 12 \<and>
   (\<forall>slot \<in> set slotNames.
      \<exists>col. map_of (colors (parseColorScheme clrScheme)) slot = Some col \<and>
        (case parseColor (getChild clrScheme slot) of
           None \<Rightarrow> col = blackColor
         | Some c \<Rightarrow> col = \<lparr> color_type = ctype c, color_value = cvalue c,
                             color_alpha = alpha c \<rparr>))"
proof (intro conjI ballI)
  show "map fst (colors (parseColorScheme clrScheme)) = slotNames"
    by (simp add: parseColorScheme_def slotNames_def)
  show "length (colors (parseColorScheme clrScheme)) = 12"
    by (simp add: parseColorScheme_def)
next
  fix slot assume "slot \<in> set slotNames"
  then have "map_of (colors (parseColorScheme clrScheme)) slot = Some (parseThemeColor clrScheme slot)"
    by (rule colors_map_of)
  then show "\<exists>col. map_of (colors (parseColorScheme clrScheme)) slot = Some col \<and>
        (case parseColor (getChild clrScheme slot) of
           None \<Rightarrow> col = blackColor
         | Some c \<Rightarrow> col = \<lparr> color_type = ctype c, color_value = cvalue c,
                             color_alpha = alpha c \<rparr>)"
    by (auto split: option.splits simp: parseThemeColor_None parseThemeColor_Some)
qed

lemma accent3_missing: "parseColor (getChild schemeNoAccent3 ''accent3'') = None"
  unfolding schemeNoAccent3_def srgb_def by code_simp

theorem parseColorScheme_slots_witness:
  "map_of (colors (parseColorScheme schemeNoAccent3)) ''accent3'' = Some blackColor"
proof -
  have "''accent3'' \<in> set slotNames" by (simp add: slotNames_def)
  with parseColorScheme_slots [of schemeNoAccent3] accent3_missing
  show ?thesis by fastforce
qed

text \<open>The claim as stated fails: in a scheme without \<open>accent3\<close> the slot holds rgb
  \<open>#000000\<close>, not the \<open>accent3\<close> entry \<open>#A5A5A5\<close> of the default Office table.\<close>

theorem parseColorScheme_default_palette_counterexample:
  "getChild schemeNoAccent3 ''accent3'' = JUndefined \<and>
   map_option color_value (map_of (colors (parseColorScheme schemeNoAccent3)) ''accent3'')
     = Some (Plain (JStr ''#000000'')) \<and>
   map_of DEFAULT_THEME_COLORS ''accent3'' = Some ''#A5A5A5'' \<and>
   map_option color_value (map_of (colors (parseColorScheme schemeNoAccent3)) ''accent3'')
     \<noteq> map_option (\<lambda>hex. Plain (JStr hex)) (map_of DEFAULT_THEME_COLORS ''accent3'')"
proof -
  have g: "getChild schemeNoAccent3 ''accent3'' = JUndefined"
    unfolding schemeNoAccent3_def srgb_def by code_simp
  have c: "map_of (colors (parseColorScheme schemeNoAccent3)) ''accent3'' = Some blackColor"
    using accent3_missing by (simp add: parseColorScheme_def parseThemeColor_None)
  have d: "map_of DEFAULT_THEME_COLORS ''accent3'' = Some ''#A5A5A5''"
    by (simp add: DEFAULT_THEME_COLORS_def)
  show ?thesis using g c d by (simp add: blackColor_def)
qed


section \<open>Relationships\<close>

text \<open>
  A JavaScript \<open>Map\<close> is an association list with distinct keys in insertion order:
  \<open>set\<close> on a key already present replaces the value in place, on a new key it appends.
  Keys are compared as values (for the string keys of a relationships part that is the
  comparison \<open>Map\<close> makes).
\<close>

fun mapSet :: "'k \<Rightarrow> 'v \<Rightarrow> ('k \<times> 'v) list \<Rightarrow> ('k \<times> 'v) list" where
  "mapSet k v [] = [(k, v)]"
| "mapSet k v ((k', v') # rest) =
     (if k' = k then (k, v) # rest else (k', v') # mapSet k v rest)"

record RelEntry =
  rel_target :: jv
  rel_type :: jv

type_synonym RelMap = "(jv \<times> RelEntry) list"

text \<open>The body of the loop of \<open>RelationshipParser.parse\<close>, and the function.\<close>

definition relEntryOf :: "jv \<Rightarrow> RelEntry" where
  "relEntryOf rel =
     \<lparr> rel_target = orElse (getAttr rel ''Target'' JUndefined) (JStr []),
       rel_type = orElse (getAttr rel ''Type'' JUndefined) (JStr []) \<rparr>"

definition relStep :: "RelMap \<Rightarrow> jv \<Rightarrow> RelMap" where
  "relStep relationships rel =
     (let id = getAttr rel ''Id'' JUndefined
      in if truthy id then mapSet id (relEntryOf rel) relationships else relationships)"

definition RelationshipParser_parse :: "jv \<Rightarrow> string \<Rightarrow> RelMap" where
  "RelationshipParser_parse xml basePath =
     (if \<not> truthy xml then []
      else (let rels = getProp xml ''Relationships''
            in if \<not> truthy rels then []
               else foldl relStep [] (ensureArray (getProp rels ''Relationship''))))"

text \<open>The \<open>Relationship\<close> elements of a relationships document, and the (id, entry) pairs
  of those whose \<open>Id\<close> is present and not empty, in document order.\<close>

definition relationshipElements :: "jv \<Rightarrow> jv list" where
  "relationshipElements xml =
     (if truthy xml \<and> truthy (getProp xml ''Relationships'')
      then ensureArray (getProp (getProp xml ''Relationships'') ''Relationship'')
      else [])"

definition relPairs :: "jv list \<Rightarrow> (jv \<times> RelEntry) list" where
  "relPairs rels =
     map (\<lambda>rel. (getAttr rel ''Id'' JUndefined, relEntryOf rel))
       (filter (\<lambda>rel. truthy (getAttr rel ''Id'' JUndefined)) rels)"

definition relElem :: "(string \<times> string) list \<Rightarrow> jv" where
  "relElem attrs = JObj (map (\<lambda>(k, v). (''@_'' @ k, JStr v)) attrs)"

definition relsDoc :: "jv list \<Rightarrow> jv" where
  "relsDoc rels = JObj [(''Relationships'', JObj [(''Relationship'', JArr rels)])]"

lemma map_of_mapSet: "map_of (mapSet k v m) = (map_of m)(k \<mapsto> v)"
  by (induction m) (auto simp: fun_eq_iff)

lemma keys_mapSet: "fst ` set (mapSet k v m) = insert k (fst ` set m)"
  by (induction m) (force split: if_splits)+

lemma distinct_mapSet: "distinct (map fst m) \<Longrightarrow> distinct (map fst (mapSet k v m))"
  by (induction m) (auto simp: keys_mapSet)

lemma relStep_truthy:
  "truthy (getAttr rel ''Id'' JUndefined) \<Longrightarrow>
   relStep m rel = mapSet (getAttr rel ''Id'' JUndefined) (relEntryOf rel) m"
  by (simp add: relStep_def)

lemma relStep_falsy: "\<not> truthy (getAttr rel ''Id'' JUndefined) \<Longrightarrow> relStep m rel = m"
  by (simp add: relStep_def)

lemma mapSet_new: "k \<notin> fst ` set m \<Longrightarrow> mapSet k v m = m @ [(k, v)]"
  by (induction m) auto

lemma relPairs_Cons:
  "relPairs (rel # rels) =
     (if truthy (getAttr rel ''Id'' JUndefined)
      then (getAttr rel ''Id'' JUndefined, relEntryOf rel) # relPairs rels
      else relPairs rels)"
  by (simp add: relPairs_def)

lemma foldl_relStep_map_of:
  "map_of (foldl relStep m rels) = map_of m ++ map_of (rev (relPairs rels))"
proof (induction rels arbitrary: m)
  case Nil
  then show ?case by (simp add: relPairs_def)
next
  case (Cons rel rels)
  show ?case
  proof (cases "truthy (getAttr rel ''Id'' JUndefined)")
    case True
    then have "map_of (foldl relStep m (rel # rels)) =
        map_of (mapSet (getAttr rel ''Id'' JUndefined) (relEntryOf rel) m) ++ map_of (rev (relPairs rels))"
      by (simp add: relStep_truthy Cons.IH)
    also have "\<dots> = map_of m ++ map_of (rev (relPairs (rel # rels)))"
      using True by (simp add: map_of_mapSet relPairs_Cons)
    finally show ?thesis .
  next
    case False
    then show ?thesis by (simp add: relStep_falsy relPairs_Cons Cons.IH)
  qed
qed

lemma foldl_relStep_keys:
  "fst ` set (foldl relStep m rels) = fst ` set m \<union> fst ` set (relPairs rels)"
proof (induction rels arbitrary: m)
  case Nil
  then show ?case by (simp add: relPairs_def)
next
  case (Cons rel rels)
  show ?case
    by (cases "truthy (getAttr rel ''Id'' JUndefined)")
       (auto simp: relStep_truthy relStep_falsy relPairs_Cons keys_mapSet Cons.IH)
qed

lemma foldl_relStep_distinct:
  "distinct (map fst m) \<Longrightarrow> distinct (map fst (foldl relStep m rels))"
proof (induction rels arbitrary: m)
  case Nil
  then show ?case by simp
next
  case (Cons rel rels)
  show ?case
    by (cases "truthy (getAttr rel ''Id'' JUndefined)")
       (simp_all add: relStep_truthy relStep_falsy distinct_mapSet Cons)
qed

lemma foldl_relStep_append:
  "distinct (map fst m @ map fst (relPairs rels)) \<Longrightarrow> foldl relStep m rels = m @ relPairs rels"
proof (induction rels arbitrary: m)
  case Nil
  then show ?case by (simp add: relPairs_def)
next
  case (Cons rel rels)
  show ?case
  proof (cases "truthy (getAttr rel ''Id'' JUndefined)")
    case True
    with Cons.prems have new: "getAttr rel ''Id'' JUndefined \<notin> fst ` set m"
      and d: "distinct (map fst (m @ [(getAttr rel ''Id'' JUndefined, relEntryOf rel)]) @ map fst (relPairs rels))"
      by (auto simp: relPairs_Cons)
    have "foldl relStep m (rel # rels) =
        foldl relStep (m @ [(getAttr rel ''Id'' JUndefined, relEntryOf rel)]) rels"
      using True new by (simp add: relStep_truthy mapSet_new)
    also have "\<dots> = (m @ [(getAttr rel ''Id'' JUndefined, relEntryOf rel)]) @ relPairs rels"
      using d by (rule Cons.IH)
    finally show ?thesis using True by (simp add: relPairs_Cons)
  next
    case False
    with Cons show ?thesis by (simp add: relStep_falsy relPairs_Cons)
  qed
qed

lemma relPairs_keys:
  "fst ` set (relPairs rels) =
     {getAttr rel ''Id'' JUndefined | rel. rel \<in> set rels \<and> truthy (getAttr rel ''Id'' JUndefined)}"
  by (induction rels) (auto simp: relPairs_Cons relPairs_def)

lemma parse_foldl:
  "RelationshipParser_parse xml basePath = foldl relStep [] (relationshipElements xml)"
  by (simp add: RelationshipParser_parse_def relationshipElements_def Let_def)

text \<open>
  Claim C9, as the code has it: the map returned for a relationships document has distinct
  keys, which are exactly the \<open>Id\<close> values that are present and not empty; each key maps to
  the target and type of the last \<open>Relationship\<close> element with that \<open>Id\<close>; when those
  \<open>Id\<close> values are distinct the map has exactly one entry per such element, in document
  order; elements whose \<open>Id\<close> is absent or empty leave no entry.
\<close>

theorem RelationshipParser_parse_entries:
  "distinct (map fst (RelationshipParser_parse xml basePath)) \<and>
   set (map fst (RelationshipParser_parse xml basePath)) =
     {getAttr rel ''Id'' JUndefined | rel.
        rel \<in> set (relationshipElements xml) \<and> truthy (getAttr rel ''Id'' JUndefined)} \<and>
   map_of (RelationshipParser_parse xml basePath) =
     map_of (rev (relPairs (relationshipElements xml))) \<and>
   (distinct (map fst (relPairs (relationshipElements xml))) \<longrightarrow>
      RelationshipParser_parse xml basePath = relPairs (relationshipElements xml))"
proof (intro conjI impI)
  show "distinct (map fst (RelationshipParser_parse xml basePath))"
    by (simp add: parse_foldl foldl_relStep_distinct)
  show "set (map fst (RelationshipParser_parse xml basePath)) =
     {getAttr rel ''Id'' JUndefined | rel.
        rel \<in> set (relationshipElements xml) \<and> truthy (getAttr rel ''Id'' JUndefined)}"
    using foldl_relStep_keys [of "[]" "relationshipElements xml"]
    by (simp add: parse_foldl relPairs_keys)
  show "map_of (RelationshipParser_parse xml basePath) =
     map_of (rev (relPairs (relationshipElements xml)))"
    by (simp add: parse_foldl foldl_relStep_map_of)
next
  assume "distinct (map fst (relPairs (relationshipElements xml)))"
  then show "RelationshipParser_parse xml basePath = relPairs (relationshipElements xml)"
    using foldl_relStep_append [of "[]" "relationshipElements xml"] by (simp add: parse_foldl)
qed

definition sampleRels :: jv where
  "sampleRels = relsDoc
     [relElem [(''Id'', ''rId1''), (''Type'', ''http://x/slideLayout''), (''Target'', ''../slideLayouts/slideLayout1.xml'')],
      relElem [(''Type'', ''http://x/image''), (''Target'', ''../media/image1.png'')],
      relElem [(''Id'', ''rId2''), (''Type'', ''http://x/image''), (''Target'', ''../media/image2.png'')]]"

theorem RelationshipParser_parse_entries_witness:
  "RelationshipParser_parse sampleRels ''ppt/slides/slide1.xml'' =
     [(JStr ''rId1'', \<lparr> rel_target = JStr ''../slideLayouts/slideLayout1.xml'',
                         rel_type = JStr ''http://x/slideLayout'' \<rparr>),
      (JStr ''rId2'', \<lparr> rel_target = JStr ''../media/image2.png'',
                         rel_type = JStr ''http://x/image'' \<rparr>)]"
proof -
  have p: "relPairs (relationshipElements sampleRels) =
     [(JStr ''rId1'', \<lparr> rel_target = JStr ''../slideLayouts/slideLayout1.xml'',
                         rel_type = JStr ''http://x/slideLayout'' \<rparr>),
      (JStr ''rId2'', \<lparr> rel_target = JStr ''../media/image2.png'',
                         rel_type = JStr ''http://x/image'' \<rparr>)]"
    unfolding sampleRels_def relsDoc_def relElem_def by code_simp
  then have "distinct (map fst (relPairs (relationshipElements sampleRels)))" by simp
  with RelationshipParser_parse_entries [of sampleRels "''ppt/slides/slide1.xml''"] p
  show ?thesis by simp
qed

text \<open>The claim as stated fails in two ways: an element whose \<open>Id\<close> attribute is present
  but empty gets no entry, and two elements with the same \<open>Id\<close> share one entry, the
  target of the first being lost.\<close>

theorem RelationshipParser_parse_counterexample:
  "getProp (relElem [(''Id'', []), (''Target'', ''a.xml'')]) ''@_Id'' \<noteq> JUndefined \<and>
   RelationshipParser_parse (relsDoc [relElem [(''Id'', []), (''Target'', ''a.xml'')]]) [] = [] \<and>
   RelationshipParser_parse
     (relsDoc [relElem [(''Id'', ''rId1''), (''Target'', ''a.xml'')],
               relElem [(''Id'', ''rId1''), (''Target'', ''b.xml'')]]) [] =
     [(JStr ''rId1'', \<lparr> rel_target = JStr ''b.xml'', rel_type = JStr [] \<rparr>)]"
  unfolding relsDoc_def relElem_def by code_simp


section \<open>Resolving relative targets\<close>

text \<open>String primitives of \<open>PPTXParser.resolvePath\<close>: \<^verbatim>\<open>s.startsWith(p)\<close>,
  \<^verbatim>\<open>s.lastIndexOf(c)\<close> (\<open>-1\<close> when absent) and \<^verbatim>\<open>s.substring(0, n)\<close> (a negative
  \<open>n\<close> counts as 0).\<close>

definition startsWith :: "string \<Rightarrow> string \<Rightarrow> bool" where
  "startsWith s p = (take (length p) s = p)"

fun lastIndexOf :: "char \<Rightarrow> string \<Rightarrow> int" where
  "lastIndexOf c [] = - 1"
| "lastIndexOf c (x # xs) =
     (let r = lastIndexOf c xs
      in if 0 \<le> r then r + 1 else if x = c then 0 else - 1)"

definition substring0 :: "string \<Rightarrow> int \<Rightarrow> string" where
  "substring0 s n = take (nat n) s"

text \<open>The body of the loop over the segments of the target; \<open>pop\<close> on an empty array
  leaves it empty.\<close>

definition resolveStep :: "string list \<Rightarrow> string \<Rightarrow> string list" where
  "resolveStep baseParts part =
     (if part = ''..'' then butlast baseParts
      else if part \<noteq> ''.'' then baseParts @ [part]
      else baseParts)"

definition resolvePath :: "string \<Rightarrow> string \<Rightarrow> string" where
  "resolvePath basePath relativePath =
     (if \<not> startsWith relativePath ''..''
      then (let baseDir = substring0 basePath (lastIndexOf CHR ''/'' basePath)
            in baseDir @ ''/'' @ relativePath)
      else (let baseParts = butlast (split_js CHR ''/'' basePath);
                relParts = split_js CHR ''/'' relativePath
            in join_js ''/'' (foldl resolveStep baseParts relParts)))"

text \<open>The directory of a part path, as its segments: all but the last one.\<close>

definition dirSegments :: "string \<Rightarrow> string list" where
  "dirSegments basePath = butlast (split_js CHR ''/'' basePath)"

text \<open>POSIX-style resolution of a relative target against the directory of the base part, in
  the claim's words (both are paths from the root of the archive): the segments of the
  directory and then of the target are gone through in order, an empty segment and \<open>.\<close>
  being skipped, \<open>..\<close> removing the segment before it (none at the root), any other
  segment being kept; the result is the kept segments joined by slashes. A plain segment is
  one that is neither empty nor \<open>.\<close> nor \<open>..\<close>.\<close>

definition posixStep :: "string list \<Rightarrow> string \<Rightarrow> string list" where
  "posixStep kept seg =
     (if seg = [] \<or> seg = ''.'' then kept
      else if seg = ''..'' then butlast kept
      else kept @ [seg])"

definition posixResolve :: "string \<Rightarrow> string \<Rightarrow> string" where
  "posixResolve basePath relativePath =
     join_js ''/'' (foldl posixStep [] (dirSegments basePath @ split_js CHR ''/'' relativePath))"

definition plainSegments :: "string list \<Rightarrow> bool" where
  "plainSegments segs = list_all (\<lambda>seg. seg \<noteq> [] \<and> seg \<noteq> ''.'' \<and> seg \<noteq> ''..'') segs"

lemma split_js_nonempty: "split_js c s \<noteq> []"
  by (induction s) (auto split: list.splits)

lemma split_js_single: "(\<exists>p. split_js c s = [p]) \<longleftrightarrow> c \<notin> set s"
proof (induction s)
  case Nil
  then show ?case by simp
next
  case (Cons x xs)
  then show ?case
    using split_js_nonempty [of c xs] by (auto split: list.splits)
qed

lemma lastIndexOf_neg: "lastIndexOf c s < 0 \<longleftrightarrow> c \<notin> set s"
  by (induction s) (auto simp: Let_def)

lemma lastIndexOf_ge: "- 1 \<le> lastIndexOf c s"
  by (induction s) (auto simp: Let_def)

lemma join_js_Cons_Cons: "join_js sep ((x # p) # ps) = x # join_js sep (p # ps)"
  by (cases ps) auto

lemma dirname_segments:
  "take (nat (lastIndexOf c s)) s = join_js [c] (butlast (split_js c s))"
proof (induction s)
  case Nil
  then show ?case by simp
next
  case (Cons x xs)
  obtain p ps where sp: "split_js c xs = p # ps"
    using split_js_nonempty [of c xs] by (cases "split_js c xs") auto
  show ?case
  proof (cases "c \<in> set xs")
    case False
    then have neg: "lastIndexOf c xs < 0" by (simp add: lastIndexOf_neg)
    from False have "ps = []" using split_js_single [of c xs] sp by auto
    with neg sp show ?thesis by (auto simp: Let_def)
  next
    case True
    then have r: "0 \<le> lastIndexOf c xs" using lastIndexOf_neg [of c xs] by auto
    from True have ps: "ps \<noteq> []" using split_js_single [of c xs] sp by auto
    have tk: "take (nat (lastIndexOf c (x # xs))) (x # xs) = x # take (nat (lastIndexOf c xs)) xs"
      using r by (simp add: Let_def nat_add_distrib)
    have ih: "take (nat (lastIndexOf c xs)) xs = join_js [c] (p # butlast ps)"
      using Cons.IH sp ps by simp
    show ?thesis
    proof (cases "x = c")
      case True
      then have "butlast (split_js c (x # xs)) = [] # p # butlast ps"
        using sp ps by simp
      then show ?thesis using tk ih True by simp
    next
      case False
      then have "butlast (split_js c (x # xs)) = (x # p) # butlast ps"
        using sp ps by simp
      then show ?thesis using tk ih by (simp add: join_js_Cons_Cons)
    qed
  qed
qed

lemma join_split: "join_js [c] (split_js c s) = s"
proof (induction s)
  case Nil
  then show ?case by simp
next
  case (Cons x xs)
  obtain p ps where sp: "split_js c xs = p # ps"
    using split_js_nonempty [of c xs] by (cases "split_js c xs") auto
  with Cons show ?case by (auto simp: join_js_Cons_Cons)
qed

lemma foldl_resolveStep_ups:
  "foldl resolveStep dirs (replicate k ''..'') = take (length dirs - k) dirs"
proof (induction k arbitrary: dirs)
  case 0
  then show ?case by simp
next
  case (Suc k)
  have "foldl resolveStep dirs (replicate (Suc k) ''..'') =
        foldl resolveStep (butlast dirs) (replicate k ''..'')"
    by (simp add: resolveStep_def)
  also have "\<dots> = take (length (butlast dirs) - k) (butlast dirs)" by (rule Suc.IH)
  also have "\<dots> = take (length dirs - Suc k) dirs"
    by (simp add: butlast_conv_take min_def)
  finally show ?case .
qed

lemma foldl_resolveStep_names:
  "''.'' \<notin> set rest \<Longrightarrow> ''..'' \<notin> set rest \<Longrightarrow> foldl resolveStep dirs rest = dirs @ rest"
  by (induction rest arbitrary: dirs) (auto simp: resolveStep_def)

lemma startsWith_ups:
  assumes "split_js CHR ''/'' rel = ''..'' # segs"
  shows "startsWith rel ''..''"
proof -
  have "rel = join_js ''/'' (''..'' # segs)"
    using join_split [of "CHR ''/''" rel] assms by simp
  then show ?thesis by (cases segs) (simp_all add: startsWith_def)
qed


lemma resolvePath_joined:
  "\<not> startsWith rel ''..'' \<Longrightarrow>
   resolvePath base rel = join_js ''/'' (dirSegments base) @ ''/'' @ rel"
  using dirname_segments [of "CHR ''/''" base]
  by (simp add: resolvePath_def substring0_def dirSegments_def)

lemma resolvePath_ups:
  assumes "split_js CHR ''/'' rel = replicate (Suc k) ''..'' @ rest"
    "''.'' \<notin> set rest" "''..'' \<notin> set rest"
  shows "resolvePath base rel =
    join_js ''/'' (take (length (dirSegments base) - Suc k) (dirSegments base) @ rest)"
proof -
  have "startsWith rel ''..''"
    using assms(1) startsWith_ups [of rel "replicate k ''..'' @ rest"] by simp
  then have "resolvePath base rel =
      join_js ''/'' (foldl resolveStep (dirSegments base) (replicate (Suc k) ''..'' @ rest))"
    using assms(1) by (simp add: resolvePath_def dirSegments_def)
  also have "foldl resolveStep (dirSegments base) (replicate (Suc k) ''..'' @ rest) =
      take (length (dirSegments base) - Suc k) (dirSegments base) @ rest"
    using assms(2,3) foldl_resolveStep_ups [of "dirSegments base" "Suc k"]
      foldl_resolveStep_names [of rest]
    by (simp only: foldl_append) simp
  finally show ?thesis .
qed

lemma foldl_posixStep_plain:
  "plainSegments segs \<Longrightarrow> foldl posixStep kept segs = kept @ segs"
  by (induction segs arbitrary: kept) (auto simp: plainSegments_def posixStep_def)

lemma foldl_posixStep_ups:
  "foldl posixStep kept (replicate k ''..'') = take (length kept - k) kept"
proof (induction k arbitrary: kept)
  case 0
  then show ?case by simp
next
  case (Suc k)
  have "foldl posixStep kept (replicate (Suc k) ''..'') =
        foldl posixStep (butlast kept) (replicate k ''..'')"
    by (simp add: posixStep_def)
  also have "\<dots> = take (length (butlast kept) - k) (butlast kept)" by (rule Suc.IH)
  also have "\<dots> = take (length kept - Suc k) kept"
    by (simp add: butlast_conv_take min_def)
  finally show ?case .
qed

lemma posixResolve_ups:
  assumes "split_js CHR ''/'' rel = replicate n ''..'' @ rest" "plainSegments rest"
    "plainSegments (dirSegments base)"
  shows "posixResolve base rel =
    join_js ''/'' (take (length (dirSegments base) - n) (dirSegments base) @ rest)"
proof -
  have "foldl posixStep [] (dirSegments base @ replicate n ''..'' @ rest) =
      foldl posixStep (foldl posixStep (foldl posixStep [] (dirSegments base)) (replicate n ''..'')) rest"
    by simp
  also have "\<dots> = take (length (dirSegments base) - n) (dirSegments base) @ rest"
    using assms(2,3) by (simp add: foldl_posixStep_plain foldl_posixStep_ups)
  finally show ?thesis using assms(1) by (simp add: posixResolve_def)
qed

lemma join_js_append:
  "xs \<noteq> [] \<Longrightarrow> ys \<noteq> [] \<Longrightarrow> join_js sep (xs @ ys) = join_js sep xs @ sep @ join_js sep ys"
proof (induction sep xs rule: join_js.induct)
  case (1 sep)
  then show ?case by simp
next
  case (2 sep p)
  then show ?case by (cases ys) simp_all
next
  case (3 sep p q ps)
  then show ?case by simp
qed

lemma plainSegments_names: "plainSegments rest \<Longrightarrow> ''.'' \<notin> set rest \<and> ''..'' \<notin> set rest"
  by (auto simp: plainSegments_def list_all_iff)

lemma resolvePath_agrees_posix:
  assumes s: "split_js CHR ''/'' rel = replicate n ''..'' @ rest" and r: "plainSegments rest"
    and d: "plainSegments (dirSegments base)" and ne: "dirSegments base \<noteq> []"
    and le: "n \<le> length (dirSegments base)"
  shows "resolvePath base rel = posixResolve base rel"
proof (cases n)
  case (Suc k)
  with s r show ?thesis
    using resolvePath_ups [of rel k rest base] posixResolve_ups [OF s r d] plainSegments_names [OF r]
    by simp
next
  case 0
  with s have sp: "split_js CHR ''/'' rel = rest" by simp
  then have rest: "rest \<noteq> []" using split_js_nonempty [of "CHR ''/''" rel] by auto
  have rel: "rel = join_js ''/'' rest" using join_split [of "CHR ''/''" rel] sp by simp
  have p: "posixResolve base rel = join_js ''/'' (dirSegments base @ rest)"
    using posixResolve_ups [OF s r d] 0 by simp
  show ?thesis
  proof (cases "startsWith rel ''..''")
    case True
    then have "resolvePath base rel = join_js ''/'' (foldl resolveStep (dirSegments base) rest)"
      using sp by (simp add: resolvePath_def dirSegments_def)
    then show ?thesis
      using p plainSegments_names [OF r] by (simp add: foldl_resolveStep_names)
  next
    case False
    then have "resolvePath base rel = join_js ''/'' (dirSegments base) @ ''/'' @ rel"
      by (rule resolvePath_joined)
    then show ?thesis using p rel join_js_append [OF ne rest, of "''/''"] by simp
  qed
qed

text \<open>
  Claim C3, as the code has it: a target that does not start with \<open>..\<close> is appended,
  after a slash and as it is, to the directory of the base part (its segments but the last,
  joined by slashes); otherwise the segments of the target are applied to the directory
  segments in order, \<open>..\<close> removing the last one (none when none is left), \<open>.\<close>
  changing nothing and any other segment being appended, so that \<open>k\<close> leading \<open>..\<close>
  followed by plain segments give the directory without its last \<open>k\<close> segments, followed
  by those segments. When the directory of the base part is not empty and made of plain
  segments, and the target is at most that many \<open>..\<close> followed by plain segments, the
  result is the POSIX-style resolution; and
  \<open>resolvePath "ppt/slides/slide1.xml" "../media/image1.png" = "ppt/media/image1.png"\<close>.
\<close>

theorem resolvePath_rule:
  "(\<not> startsWith rel ''..'' \<longrightarrow>
      resolvePath base rel = join_js ''/'' (dirSegments base) @ ''/'' @ rel) \<and>
   (startsWith rel ''..'' \<longrightarrow>
      resolvePath base rel =
        join_js ''/'' (foldl resolveStep (dirSegments base) (split_js CHR ''/'' rel))) \<and>
   resolveStep dirs ''..'' = butlast dirs \<and>
   resolveStep dirs ''.'' = dirs \<and>
   (seg \<noteq> ''..'' \<and> seg \<noteq> ''.'' \<longrightarrow> resolveStep dirs seg = dirs @ [seg]) \<and>
   (split_js CHR ''/'' rel = replicate (Suc k) ''..'' @ rest \<and>
    ''.'' \<notin> set rest \<and> ''..'' \<notin> set rest \<longrightarrow>
      resolvePath base rel =
        join_js ''/'' (take (length (dirSegments base) - Suc k) (dirSegments base) @ rest)) \<and>
   (split_js CHR ''/'' rel = replicate n ''..'' @ rest \<and> plainSegments rest \<and>
    plainSegments (dirSegments base) \<and> dirSegments base \<noteq> [] \<and> n \<le> length (dirSegments base) \<longrightarrow>
      resolvePath base rel = posixResolve base rel) \<and>
   resolvePath ''ppt/slides/slide1.xml'' ''../media/image1.png'' = ''ppt/media/image1.png''"
proof (intro conjI impI)
  assume "\<not> startsWith rel ''..''"
  then show "resolvePath base rel = join_js ''/'' (dirSegments base) @ ''/'' @ rel"
    by (rule resolvePath_joined)
next
  assume "startsWith rel ''..''"
  then show "resolvePath base rel =
        join_js ''/'' (foldl resolveStep (dirSegments base) (split_js CHR ''/'' rel))"
    by (simp add: resolvePath_def dirSegments_def)
next
  show "resolveStep dirs ''..'' = butlast dirs" by (simp add: resolveStep_def)
  show "resolveStep dirs ''.'' = dirs" by (simp add: resolveStep_def)
next
  assume "seg \<noteq> ''..'' \<and> seg \<noteq> ''.''"
  then show "resolveStep dirs seg = dirs @ [seg]" by (simp add: resolveStep_def)
next
  assume "split_js CHR ''/'' rel = replicate (Suc k) ''..'' @ rest \<and>
    ''.'' \<notin> set rest \<and> ''..'' \<notin> set rest"
  then show "resolvePath base rel =
        join_js ''/'' (take (length (dirSegments base) - Suc k) (dirSegments base) @ rest)"
    by (simp add: resolvePath_ups)
next
  assume "split_js CHR ''/'' rel = replicate n ''..'' @ rest \<and> plainSegments rest \<and>
    plainSegments (dirSegments base) \<and> dirSegments base \<noteq> [] \<and> n \<le> length (dirSegments base)"
  then show "resolvePath base rel = posixResolve base rel"
    by (simp add: resolvePath_agrees_posix)
next
  show "resolvePath ''ppt/slides/slide1.xml'' ''../media/image1.png'' = ''ppt/media/image1.png''"
    by code_simp
qed

theorem resolvePath_rule_witness:
  "resolvePath ''ppt/slides/slide1.xml'' ''media/image1.png'' = ''ppt/slides/media/image1.png'' \<and>
   resolvePath ''ppt/slides/slide1.xml'' ''../../docProps/app.xml'' = ''docProps/app.xml'' \<and>
   resolvePath ''ppt/slides/slide1.xml'' ''.././media/image1.png'' = ''ppt/media/image1.png'' \<and>
   resolvePath ''ppt/slides/slide1.xml'' ''../slideLayouts/slideLayout1.xml'' =
     posixResolve ''ppt/slides/slide1.xml'' ''../slideLayouts/slideLayout1.xml'' \<and>
   posixResolve ''ppt/slides/slide1.xml'' ''../slideLayouts/slideLayout1.xml'' =
     ''ppt/slideLayouts/slideLayout1.xml''"
proof -
  have a: "\<not> startsWith ''media/image1.png'' ''..''" by (simp add: startsWith_def)
  have d: "dirSegments ''ppt/slides/slide1.xml'' = [''ppt'', ''slides'']"
    by (simp add: dirSegments_def)
  have b: "split_js CHR ''/'' ''../../docProps/app.xml'' =
      replicate (Suc 1) ''..'' @ [''docProps'', ''app.xml'']"
    by (simp add: numeral_2_eq_2)
  have c: "startsWith ''.././media/image1.png'' ''..''" by (simp add: startsWith_def)
  have s: "split_js CHR ''/'' ''.././media/image1.png'' = [''..'', ''.'', ''media'', ''image1.png'']"
    by simp
  have e: "split_js CHR ''/'' ''../slideLayouts/slideLayout1.xml'' =
      replicate 1 ''..'' @ [''slideLayouts'', ''slideLayout1.xml'']"
    by simp
  have p: "plainSegments [''slideLayouts'', ''slideLayout1.xml'']" "plainSegments [''ppt'', ''slides'']"
    by (simp_all add: plainSegments_def)
  have 1: "resolvePath ''ppt/slides/slide1.xml'' ''media/image1.png'' = ''ppt/slides/media/image1.png''"
    using resolvePath_rule [of "''media/image1.png''" "''ppt/slides/slide1.xml''"] a d by simp
  have 2: "resolvePath ''ppt/slides/slide1.xml'' ''../../docProps/app.xml'' = ''docProps/app.xml''"
    using resolvePath_rule [of "''../../docProps/app.xml''" "''ppt/slides/slide1.xml''" _ _ 1
        "[''docProps'', ''app.xml'']"] b d
    by simp
  have 3: "resolvePath ''ppt/slides/slide1.xml'' ''.././media/image1.png'' = ''ppt/media/image1.png''"
    using resolvePath_rule [of "''.././media/image1.png''" "''ppt/slides/slide1.xml''"] c d s
    by (simp add: resolveStep_def)
  have 4: "resolvePath ''ppt/slides/slide1.xml'' ''../slideLayouts/slideLayout1.xml'' =
     posixResolve ''ppt/slides/slide1.xml'' ''../slideLayouts/slideLayout1.xml''"
    using resolvePath_rule [of "''../slideLayouts/slideLayout1.xml''" "''ppt/slides/slide1.xml''"
        _ _ _ "[''slideLayouts'', ''slideLayout1.xml'']" 1] e d p
    by simp
  have 5: "posixResolve ''ppt/slides/slide1.xml'' ''../slideLayouts/slideLayout1.xml'' =
     ''ppt/slideLayouts/slideLayout1.xml''"
    by code_simp
  from 1 2 3 4 5 show ?thesis by (intro conjI)
qed

text \<open>The claim as stated fails: the result is not the POSIX-style resolution for a relative
  target that begins with \<open>.\<close>, for one that has \<open>..\<close> after its first segment, and for a
  base part that has no directory.\<close>

theorem resolvePath_not_normalised_counterexample:
  "resolvePath ''ppt/slides/slide1.xml'' ''./media/image1.png'' \<noteq>
     posixResolve ''ppt/slides/slide1.xml'' ''./media/image1.png'' \<and>
   resolvePath ''ppt/slides/slide1.xml'' ''./media/image1.png'' = ''ppt/slides/./media/image1.png'' \<and>
   posixResolve ''ppt/slides/slide1.xml'' ''./media/image1.png'' = ''ppt/slides/media/image1.png'' \<and>
   resolvePath ''ppt/slides/slide1.xml'' ''a/../b.png'' = ''ppt/slides/a/../b.png'' \<and>
   posixResolve ''ppt/slides/slide1.xml'' ''a/../b.png'' = ''ppt/slides/b.png'' \<and>
   resolvePath ''slide1.xml'' ''media/x.png'' = ''/media/x.png'' \<and>
   posixResolve ''slide1.xml'' ''media/x.png'' = ''media/x.png''"
  by code_simp

section \<open>Animation nodes\<close>

text \<open>
  An \<open>AnimationNode\<close> with the fields that the parser's callers read: its type, its
  children, \<open>begin\<close>, \<open>duration\<close> and \<open>targetId\<close>; an absent optional field is \<open>None\<close>
  (\<open>JUndefined\<close> for \<open>begin\<close>). The other properties of a node (fill, repeat count, effect,
  key times and so on) are not part of the model. The type of numbers is a parameter: the
  parser stores what \<^verbatim>\<open>parseInt\<close> returns, an integer or \<open>NaN\<close>, and the timing
  controller computes with these numbers; the animation steps are built without reading a
  number.
\<close>

datatype NodeType =
    Parallel | Sequence | Effect | SetNode | Animate | AnimateColor | AnimateMotion
  | AnimateRotation | AnimateScale | Command | Audio | Video

datatype 'n Duration = Indefinite | Millis 'n

datatype 'n AnimationNode =
  AnimationNode
    (ntype: NodeType)
    (children: "'n AnimationNode list option")
    (nbegin: jv)
    (duration: "'n Duration option")
    (targetId: "'n option")

section \<open>Parsing the timing tree\<close>

text \<open>The partial node that \<open>parseCommonTimingProps\<close>, \<open>parseTargetElement\<close> and
  \<open>parseBehaviorProps\<close> return, and the spread \<^verbatim>\<open>{ ...a, ...b }\<close> of two of them (a
  property of \<open>b\<close> that is present, even as \<open>undefined\<close>, replaces that of \<open>a\<close>).\<close>

record TimingProps =
  p_begin :: "jv option"
  p_duration :: "jnum Duration option option"
  p_targetId :: "jnum option option"

definition noProps :: TimingProps where
  "noProps = \<lparr> p_begin = None, p_duration = None, p_targetId = None \<rparr>"

definition spreadProps :: "TimingProps \<Rightarrow> TimingProps \<Rightarrow> TimingProps" where
  "spreadProps a b =
     \<lparr> p_begin = (case p_begin b of None \<Rightarrow> p_begin a | Some v \<Rightarrow> Some v),
       p_duration = (case p_duration b of None \<Rightarrow> p_duration a | Some v \<Rightarrow> Some v),
       p_targetId = (case p_targetId b of None \<Rightarrow> p_targetId a | Some v \<Rightarrow> Some v) \<rparr>"

text \<open>\<open>parseDuration\<close>: \<^verbatim>\<open>if (!dur) return undefined; if (dur === 'indefinite') return
  'indefinite'; return parseInt(dur, 10)\<close>\<close>

definition parseDuration :: "jv \<Rightarrow> jnum Duration option" where
  "parseDuration dur =
     (if \<not> truthy dur then None
      else if dur = JStr ''indefinite'' then Some Indefinite
      else Some (Millis (parseInt10 (toStr dur))))"

definition parseCommonTimingProps :: "jv \<Rightarrow> TimingProps" where
  "parseCommonTimingProps cTn =
     (if \<not> truthy cTn then noProps
      else
        (let stCondLst = getChild cTn ''stCondLst'';
             props = \<lparr> p_begin = None,
                       p_duration = Some (parseDuration (getAttr cTn ''dur'' JUndefined)),
                       p_targetId = None \<rparr>
         in if truthy stCondLst
            then (let cond = getChild stCondLst ''cond''
                  in if truthy cond
                     then props \<lparr> p_begin := Some (getAttr cond ''delay'' JUndefined) \<rparr>
                     else props)
            else props))"

definition parseTargetElement :: "jv \<Rightarrow> TimingProps" where
  "parseTargetElement tgtEl =
     (if \<not> truthy tgtEl then noProps
      else
        (let spTgt = getChild tgtEl ''spTgt''
         in if truthy spTgt
            then (let spId = getAttr spTgt ''spid'' JUndefined
                  in noProps \<lparr> p_targetId :=
                       Some (if truthy spId then Some (parseInt10 (toStr spId)) else None) \<rparr>)
            else noProps))"

definition parseBehaviorProps :: "jv \<Rightarrow> TimingProps" where
  "parseBehaviorProps cBhvr =
     (if \<not> truthy cBhvr then noProps
      else
        (let cTn = getChild cBhvr ''cTn'';
             tgtEl = getChild cBhvr ''tgtEl''
         in spreadProps (parseCommonTimingProps cTn) (parseTargetElement tgtEl)))"

text \<open>The object literal \<^verbatim>\<open>{ type, children, ...props }\<close>.\<close>

definition mkNode ::
  "NodeType \<Rightarrow> jnum AnimationNode list option \<Rightarrow> TimingProps \<Rightarrow> jnum AnimationNode" where
  "mkNode t cs props =
     AnimationNode t cs
       (case p_begin props of None \<Rightarrow> JUndefined | Some b \<Rightarrow> b)
       (case p_duration props of None \<Rightarrow> None | Some d \<Rightarrow> d)
       (case p_targetId props of None \<Rightarrow> None | Some i \<Rightarrow> i)"

text \<open>The leaf parsers. Each returns a node for every element (never null).\<close>

definition parseBehaviorNode :: "NodeType \<Rightarrow> jv \<Rightarrow> jnum AnimationNode option" where
  "parseBehaviorNode t el = Some (mkNode t None (parseBehaviorProps (getChild el ''cBhvr'')))"

definition parseMediaNode :: "NodeType \<Rightarrow> jv \<Rightarrow> jnum AnimationNode option" where
  "parseMediaNode t el =
     (let cMediaNode = getChild el ''cMediaNode'';
          cTn = getChild cMediaNode ''cTn'';
          tgtEl = getChild cMediaNode ''tgtEl''
      in Some (mkNode t None (spreadProps (parseCommonTimingProps cTn) (parseTargetElement tgtEl))))"

definition parseSetNode :: "jv \<Rightarrow> jnum AnimationNode option" where
  "parseSetNode = parseBehaviorNode SetNode"

definition parseAnimateNode :: "jv \<Rightarrow> jnum AnimationNode option" where
  "parseAnimateNode = parseBehaviorNode Animate"

definition parseAnimEffectNode :: "jv \<Rightarrow> jnum AnimationNode option" where
  "parseAnimEffectNode = parseBehaviorNode Effect"

definition parseAnimColorNode :: "jv \<Rightarrow> jnum AnimationNode option" where
  "parseAnimColorNode = parseBehaviorNode AnimateColor"

definition parseAnimMotionNode :: "jv \<Rightarrow> jnum AnimationNode option" where
  "parseAnimMotionNode = parseBehaviorNode AnimateMotion"

definition parseAnimRotationNode :: "jv \<Rightarrow> jnum AnimationNode option" where
  "parseAnimRotationNode = parseBehaviorNode AnimateRotation"

definition parseAnimScaleNode :: "jv \<Rightarrow> jnum AnimationNode option" where
  "parseAnimScaleNode = parseBehaviorNode AnimateScale"

definition parseAudioNode :: "jv \<Rightarrow> jnum AnimationNode option" where
  "parseAudioNode = parseMediaNode Audio"

definition parseVideoNode :: "jv \<Rightarrow> jnum AnimationNode option" where
  "parseVideoNode = parseMediaNode Video"

text \<open>One loop of \<open>parseChildTnLst\<close>:
  \<^verbatim>\<open>for (const x of xs) { const node = parse(x); if (node) nodes.push(node) }\<close>, given the
  results of \<open>parse\<close> on the elements.\<close>

fun pushNodes :: "'a list \<Rightarrow> 'a option list \<Rightarrow> 'a list" where
  "pushNodes nodes [] = nodes"
| "pushNodes nodes (None # rs) = pushNodes nodes rs"
| "pushNodes nodes (Some n # rs) = pushNodes (nodes @ [n]) rs"

lemma size_map_of:
  "map_of kvs k = Some v \<Longrightarrow> size v < Suc (size_list (size_prod (\<lambda>_. 0) size) kvs)"
  by (induction kvs) (auto split: if_splits)

lemma size_getProp: "getProp e k \<noteq> JUndefined \<Longrightarrow> size (getProp e k) < size e"
  by (cases e) (auto split: option.splits dest: size_map_of)

lemma size_firstDefined:
  "firstDefined e names \<noteq> JUndefined \<Longrightarrow> size (firstDefined e names) < size e"
  by (induction names) (auto simp: size_getProp)

lemma size_unwrapSingle: "size (unwrapSingle name r) \<le> size r"
  by (auto simp: unwrapSingle_def split: jv.splits list.splits)

lemma unwrapSingle_truthy: "truthy (unwrapSingle name r) \<Longrightarrow> r \<noteq> JUndefined"
  by (auto simp: unwrapSingle_def)

lemma size_getChild: "truthy (getChild e name) \<Longrightarrow> size (getChild e name) < size e"
proof -
  assume t: "truthy (getChild e name)"
  then have e: "truthy e" by (auto simp: getChild_def split: if_splits)
  let ?r = "if getProp e name \<noteq> JUndefined then getProp e name
         else firstDefined e (map (\<lambda>ns. ns @ localNameOf name) namespaces)"
  have g: "getChild e name = unwrapSingle name ?r" using e by (simp add: getChild_def)
  with t have "?r \<noteq> JUndefined" using unwrapSingle_truthy by metis
  then have "size ?r < size e" by (auto simp: size_getProp size_firstDefined split: if_splits)
  with g show ?thesis using size_unwrapSingle [of name ?r] by simp
qed

lemma size_ensureArray: "x \<in> set (ensureArray v) \<Longrightarrow> size x \<le> size v"
proof (cases v)
  case (JArr xs)
  assume "x \<in> set (ensureArray v)"
  with JArr have "x \<in> set xs" by simp
  then have "size x \<le> size_list size xs" by (induction xs) auto
  with JArr show ?thesis by simp
qed (auto split: if_splits)

lemma size_child_elements:
  "x \<in> set (ensureArray (getChild e name)) \<Longrightarrow> size x < size e"
proof -
  assume x: "x \<in> set (ensureArray (getChild e name))"
  then have "truthy (getChild e name)" by (auto split: if_splits)
  then have "size (getChild e name) < size e" by (rule size_getChild)
  with size_ensureArray [OF x] show ?thesis by simp
qed

function parseChildTnLst :: "jv \<Rightarrow> jnum AnimationNode list"
  and parseSequenceNode :: "jv \<Rightarrow> jnum AnimationNode option"
  and parseParNode :: "jv \<Rightarrow> jnum AnimationNode option" where
  "parseChildTnLst childTnLst =
     (let nodes = [];
          nodes = pushNodes nodes (map parseSequenceNode (ensureArray (getChild childTnLst ''seq'')));
          nodes = pushNodes nodes (map parseParNode (ensureArray (getChild childTnLst ''par'')));
          nodes = pushNodes nodes (map parseSetNode (ensureArray (getChild childTnLst ''set'')));
          nodes = pushNodes nodes (map parseAnimateNode (ensureArray (getChild childTnLst ''anim'')));
          nodes = pushNodes nodes (map parseAnimEffectNode (ensureArray (getChild childTnLst ''animEffect'')));
          nodes = pushNodes nodes (map parseAnimColorNode (ensureArray (getChild childTnLst ''animClr'')));
          nodes = pushNodes nodes (map parseAnimMotionNode (ensureArray (getChild childTnLst ''animMotion'')));
          nodes = pushNodes nodes (map parseAnimRotationNode (ensureArray (getChild childTnLst ''animRot'')));
          nodes = pushNodes nodes (map parseAnimScaleNode (ensureArray (getChild childTnLst ''animScale'')));
          nodes = pushNodes nodes (map parseAudioNode (ensureArray (getChild childTnLst ''audio'')));
          nodes = pushNodes nodes (map parseVideoNode (ensureArray (getChild childTnLst ''video'')))
      in nodes)"
| "parseSequenceNode seq =
     (let cTn = getChild seq ''cTn''
      in if \<not> truthy cTn then None
         else (let childTnLst = getChild cTn ''childTnLst'';
                   children = (if truthy childTnLst then parseChildTnLst childTnLst else [])
               in Some (mkNode Sequence (Some children) (parseCommonTimingProps cTn))))"
| "parseParNode par =
     (let cTn = getChild par ''cTn''
      in if \<not> truthy cTn then None
         else (let childTnLst = getChild cTn ''childTnLst'';
                   children = (if truthy childTnLst then parseChildTnLst childTnLst else [])
               in Some (mkNode Parallel (Some children) (parseCommonTimingProps cTn))))"
  by pat_completeness auto
termination
proof (relation "measure (\<lambda>x. case x of Inl c \<Rightarrow> size c | Inr (Inl s) \<Rightarrow> size s | Inr (Inr p) \<Rightarrow> size p)")
  show "wf (measure (\<lambda>x. case x of Inl c \<Rightarrow> size c | Inr (Inl s) \<Rightarrow> size s | Inr (Inr p) \<Rightarrow> size p))"
    by simp
qed (auto simp: size_child_elements dest!: size_getChild)


declare parseChildTnLst.simps [simp del] parseSequenceNode.simps [simp del]
  parseParNode.simps [simp del]

text \<open>The element names of the child kinds, in the priority order of the claim, each with
  its parser and the node type it yields.\<close>

definition childParsers :: "(string \<times> NodeType \<times> (jv \<Rightarrow> jnum AnimationNode option)) list" where
  "childParsers =
     [(''seq'', Sequence, parseSequenceNode),
      (''par'', Parallel, parseParNode),
      (''set'', SetNode, parseSetNode),
      (''anim'', Animate, parseAnimateNode),
      (''animEffect'', Effect, parseAnimEffectNode),
      (''animClr'', AnimateColor, parseAnimColorNode),
      (''animMotion'', AnimateMotion, parseAnimMotionNode),
      (''animRot'', AnimateRotation, parseAnimRotationNode),
      (''animScale'', AnimateScale, parseAnimScaleNode),
      (''audio'', Audio, parseAudioNode),
      (''video'', Video, parseVideoNode)]"

text \<open>All nodes of one kind: the parser applied to every matching child, nulls dropped.\<close>

definition drainKind ::
  "jv \<Rightarrow> string \<times> NodeType \<times> (jv \<Rightarrow> jnum AnimationNode option) \<Rightarrow> jnum AnimationNode list" where
  "drainKind childTnLst entry =
     (case entry of (tag, t, parse) \<Rightarrow>
        List.map_filter parse (ensureArray (getChild childTnLst tag)))"

text \<open>The position of a node type in the priority order.\<close>

fun kindRank :: "NodeType \<Rightarrow> nat" where
  "kindRank Sequence = 0"
| "kindRank Parallel = 1"
| "kindRank SetNode = 2"
| "kindRank Animate = 3"
| "kindRank Effect = 4"
| "kindRank AnimateColor = 5"
| "kindRank AnimateMotion = 6"
| "kindRank AnimateRotation = 7"
| "kindRank AnimateScale = 8"
| "kindRank Audio = 9"
| "kindRank Video = 10"
| "kindRank Command = 11"

definition interleavedChildTnLst :: "(string \<times> jv) list" where
  "interleavedChildTnLst =
     [(''p:set'', JArr [JObj [(''p:cBhvr'', JObj [(''p:cTn'', JObj [(''@_dur'', JStr ''1'')])])],
                       JObj [(''p:to'', JObj [])]]),
      (''p:anim'', JObj [(''@_calcmode'', JStr ''lin'')]),
      (''p:par'', JArr [JObj [(''p:cTn'', JObj [(''@_dur'', JStr ''500'')])]]),
      (''p:animEffect'', JObj [(''@_filter'', JStr ''fade'')]),
      (''p:seq'', JArr [JObj [(''p:cTn'', JObj [(''@_dur'', JStr ''indefinite'')])],
                       JObj [(''@_concurrent'', JStr ''1'')]])]"

lemma pushNodes_map_filter: "pushNodes nodes (map p xs) = nodes @ List.map_filter p xs"
proof (induction xs arbitrary: nodes)
  case Nil
  then show ?case by (simp add: List.map_filter_simps)
next
  case (Cons x xs)
  then show ?case by (cases "p x") (simp_all add: List.map_filter_simps)
qed

lemma parseChildTnLst_drain:
  "parseChildTnLst c = concat (map (drainKind c) childParsers)"
  by (simp add: parseChildTnLst.simps Let_def pushNodes_map_filter childParsers_def drainKind_def)

lemma ntype_mkNode: "ntype (mkNode t cs props) = t"
  by (simp add: mkNode_def)

lemma parser_kind:
  "(tag, t, parse) \<in> set childParsers \<Longrightarrow> parse x = Some n \<Longrightarrow> ntype n = t"
  by (auto simp: childParsers_def parseSequenceNode.simps parseParNode.simps Let_def
      parseSetNode_def parseAnimateNode_def parseAnimEffectNode_def parseAnimColorNode_def
      parseAnimMotionNode_def parseAnimRotationNode_def parseAnimScaleNode_def
      parseAudioNode_def parseVideoNode_def parseBehaviorNode_def parseMediaNode_def
      ntype_mkNode split: if_splits)

lemma drainKind_kind:
  assumes "entry \<in> set childParsers" "n \<in> set (drainKind c entry)"
  shows "ntype n = fst (snd entry)"
proof -
  obtain tag t parse where e: "entry = (tag, t, parse)" by (cases entry) auto
  with assms(2) obtain x where "parse x = Some n"
    by (auto simp: drainKind_def List.map_filter_def)
  with assms(1) e show ?thesis using parser_kind by fastforce
qed

lemma sorted_blocks:
  "sorted (map r es) \<Longrightarrow> (\<forall>e \<in> set es. \<forall>x \<in> set (blk e). f x = r e) \<Longrightarrow>
   sorted (map f (concat (map blk es)))"
proof (induction es)
  case Nil
  then show ?case by simp
next
  case (Cons e es)
  have "\<forall>x \<in> set (blk e). \<forall>y \<in> set (concat (map blk es)). f x \<le> f y"
  proof (intro ballI)
    fix x y assume x: "x \<in> set (blk e)" and y: "y \<in> set (concat (map blk es))"
    from y obtain e' where e': "e' \<in> set es" "y \<in> set (blk e')" by auto
    with Cons.prems x have "f x = r e" "f y = r e'" "r e \<le> r e'" by auto
    then show "f x \<le> f y" by simp
  qed
  moreover have "sorted (map f (blk e))"
  proof -
    have "map f (blk e) = replicate (length (blk e)) (r e)"
      using Cons.prems(2) by (auto simp: map_replicate_const [symmetric] intro: map_cong)
    then show ?thesis by (simp add: sorted_replicate)
  qed
  ultimately show ?case using Cons by (auto simp: sorted_append)
qed

lemma childParsers_ranks: "map (\<lambda>e. kindRank (fst (snd e))) childParsers = [0, 1, 2, 3, 4, 5, 6, 7, 8, 9, 10]"
  by (simp add: childParsers_def)

lemma getChild_map_of:
  "map_of kvs = map_of kvs' \<Longrightarrow> getChild (JObj kvs) name = getChild (JObj kvs') name"
proof -
  assume m: "map_of kvs = map_of kvs'"
  then have p: "\<And>k. getProp (JObj kvs) k = getProp (JObj kvs') k" by simp
  have "\<And>names. firstDefined (JObj kvs) names = firstDefined (JObj kvs') names"
  proof -
    fix names show "firstDefined (JObj kvs) names = firstDefined (JObj kvs') names"
      by (induction names) (simp_all add: p del: getProp.simps)
  qed
  then show ?thesis by (simp add: getChild_def p del: getProp.simps)
qed

text \<open>
  Claim C5: \<open>parseChildTnLst\<close> emits all nodes of one kind (the parser of the kind applied
  to every matching child, in document order) before those of the next kind, in the order
  seq, par, set, anim, animEffect, animClr, animMotion, animRot, animScale, audio, video; so
  the node types of the output are sorted by that order, and the output does not depend on
  the order in which the kinds first occur in the source.
\<close>

theorem parseChildTnLst_kind_order:
  "parseChildTnLst c = concat (map (drainKind c) childParsers) \<and>
   map fst childParsers = [''seq'', ''par'', ''set'', ''anim'', ''animEffect'', ''animClr'',
     ''animMotion'', ''animRot'', ''animScale'', ''audio'', ''video''] \<and>
   (\<forall>entry \<in> set childParsers. \<forall>n \<in> set (drainKind c entry). ntype n = fst (snd entry)) \<and>
   sorted (map (\<lambda>n. kindRank (ntype n)) (parseChildTnLst c)) \<and>
   (map_of kvs = map_of kvs' \<longrightarrow> parseChildTnLst (JObj kvs) = parseChildTnLst (JObj kvs'))"
proof (intro conjI impI ballI)
  show "parseChildTnLst c = concat (map (drainKind c) childParsers)"
    by (rule parseChildTnLst_drain)
  show "map fst childParsers = [''seq'', ''par'', ''set'', ''anim'', ''animEffect'', ''animClr'',
     ''animMotion'', ''animRot'', ''animScale'', ''audio'', ''video'']"
    by (simp add: childParsers_def)
next
  fix entry n assume "entry \<in> set childParsers" "n \<in> set (drainKind c entry)"
  then show "ntype n = fst (snd entry)" by (rule drainKind_kind)
next
  have "sorted (map (\<lambda>e. kindRank (fst (snd e))) childParsers)"
    by (simp add: childParsers_ranks)
  moreover have "\<forall>e \<in> set childParsers. \<forall>x \<in> set (drainKind c e).
      kindRank (ntype x) = kindRank (fst (snd e))"
    by (simp add: drainKind_kind)
  ultimately have "sorted (map (\<lambda>n. kindRank (ntype n)) (concat (map (drainKind c) childParsers)))"
    by (rule sorted_blocks)
  then show "sorted (map (\<lambda>n. kindRank (ntype n)) (parseChildTnLst c))"
    by (simp add: parseChildTnLst_drain)
next
  assume "map_of kvs = map_of kvs'"
  then have "\<And>name. getChild (JObj kvs) name = getChild (JObj kvs') name"
    by (rule getChild_map_of)
  then show "parseChildTnLst (JObj kvs) = parseChildTnLst (JObj kvs')"
    by (simp add: parseChildTnLst.simps)
qed

lemma interleaved_types:
  "map ntype (parseChildTnLst (JObj interleavedChildTnLst)) =
     [Sequence, Parallel, SetNode, SetNode, Animate, Effect]"
  unfolding interleavedChildTnLst_def by code_simp

theorem parseChildTnLst_kind_order_witness:
  "map ntype (parseChildTnLst (JObj interleavedChildTnLst)) =
     [Sequence, Parallel, SetNode, SetNode, Animate, Effect] \<and>
   sorted (map (\<lambda>n. kindRank (ntype n)) (parseChildTnLst (JObj interleavedChildTnLst))) \<and>
   parseChildTnLst (JObj (rev interleavedChildTnLst)) = parseChildTnLst (JObj interleavedChildTnLst) \<and>
   list_all (\<lambda>n. ntype n = SetNode)
     (drainKind (JObj interleavedChildTnLst) (''set'', SetNode, parseSetNode))"
proof -
  have m: "map_of (rev interleavedChildTnLst) = map_of interleavedChildTnLst"
    by (rule ext) (simp add: interleavedChildTnLst_def)
  have e: "(''set'', SetNode, parseSetNode) \<in> set childParsers"
    by (simp add: childParsers_def)
  note t = parseChildTnLst_kind_order [of "JObj interleavedChildTnLst"
      "rev interleavedChildTnLst" interleavedChildTnLst]
  have s: "sorted (map (\<lambda>n. kindRank (ntype n)) (parseChildTnLst (JObj interleavedChildTnLst)))"
    using t by (elim conjE)
  have r: "parseChildTnLst (JObj (rev interleavedChildTnLst)) =
      parseChildTnLst (JObj interleavedChildTnLst)"
    using t m by (elim conjE) simp
  have k: "\<forall>n \<in> set (drainKind (JObj interleavedChildTnLst) (''set'', SetNode, parseSetNode)).
      ntype n = SetNode"
  proof -
    from t have "\<forall>entry \<in> set childParsers.
        \<forall>n \<in> set (drainKind (JObj interleavedChildTnLst) entry). ntype n = fst (snd entry)"
      by (elim conjE)
    from bspec [OF this e] show ?thesis by simp
  qed
  then have "list_all (\<lambda>n. ntype n = SetNode)
      (drainKind (JObj interleavedChildTnLst) (''set'', SetNode, parseSetNode))"
    by (simp add: list_all_iff)
  with interleaved_types s r show ?thesis by (intro conjI)
qed


section \<open>Animation steps\<close>

text \<open>
  A slide's timing: the list of top-level animation sequences, each with its child nodes
  (the build list and the conditions of a sequence are not read by the controllers).
\<close>

record 'n AnimationSequence =
  seq_children :: "'n AnimationNode list"

record 'n SlideTiming =
  sequenceList :: "'n AnimationSequence list option"

record 'n AnimationStep =
  nodes :: "'n AnimationNode list"
  targetIds :: "'n list"

text \<open>\<open>AnimationController.addStep\<close>: the target ids are those of the nodes that have
  one.\<close>

definition addStep :: "'n AnimationStep list \<Rightarrow> 'n AnimationNode list \<Rightarrow> 'n AnimationStep list" where
  "addStep steps ns =
     steps @ [\<lparr> nodes = ns,
                targetIds = map (\<lambda>n. the (targetId n)) (filter (\<lambda>n. targetId n \<noteq> None) ns) \<rparr>]"

text \<open>The body of the loop of \<open>AnimationController.processSequence\<close>, the loop, and
  \<open>buildSteps\<close> on \<^verbatim>\<open>slide.timing\<close> (\<open>None\<close> when the slide has no timing).\<close>

definition processNode :: "'n AnimationStep list \<Rightarrow> 'n AnimationNode \<Rightarrow> 'n AnimationStep list" where
  "processNode steps node =
     (if ntype node = Sequence
      then (case children node of
              Some cs \<Rightarrow> foldl (\<lambda>st child. addStep st [child]) steps cs
            | None \<Rightarrow> steps)
      else if ntype node = Parallel
      then (case children node of
              Some cs \<Rightarrow> addStep steps cs
            | None \<Rightarrow> steps)
      else if ntype node = Effect \<or> ntype node = Animate
      then addStep steps [node]
      else steps)"

definition processSequence :: "'n AnimationStep list \<Rightarrow> 'n AnimationNode list \<Rightarrow> 'n AnimationStep list" where
  "processSequence steps ns = foldl processNode steps ns"

definition buildSteps :: "'n SlideTiming option \<Rightarrow> 'n AnimationStep list" where
  "buildSteps timing =
     (case timing of
        None \<Rightarrow> []
      | Some t \<Rightarrow>
          (case sequenceList t of
             None \<Rightarrow> []
           | Some sl \<Rightarrow> foldl (\<lambda>steps s. processSequence steps (seq_children s)) [] sl))"

text \<open>The steps that one node contributes.\<close>

definition nodeSteps :: "'n AnimationNode \<Rightarrow> 'n AnimationStep list" where
  "nodeSteps node = processSequence [] [node]"

text \<open>Sample nodes: leaves and a parallel node with three leaf children.\<close>

definition leaf :: "NodeType \<Rightarrow> int \<Rightarrow> int AnimationNode" where
  "leaf t i = AnimationNode t None JUndefined (Some (Millis 500)) (Some i)"

definition parallel3 :: "int AnimationNode" where
  "parallel3 = AnimationNode Parallel (Some [leaf Effect 2, leaf Effect 3, leaf Effect 4])
     JUndefined None None"

definition timingOf :: "int AnimationNode list \<Rightarrow> int SlideTiming option" where
  "timingOf ns = Some \<lparr> sequenceList = Some [\<lparr> seq_children = ns \<rparr>] \<rparr>"

lemma addStep_append: "addStep (pre @ steps) ns = pre @ addStep steps ns"
  by (simp add: addStep_def)

lemma foldl_addStep_append:
  "foldl (\<lambda>st child. addStep st [child]) (pre @ steps) cs =
   pre @ foldl (\<lambda>st child. addStep st [child]) steps cs"
  by (induction cs arbitrary: steps) (simp_all add: addStep_append)

lemma processNode_append: "processNode (pre @ steps) node = pre @ processNode steps node"
  by (simp add: processNode_def addStep_append foldl_addStep_append split: option.splits)

lemma processSequence_append:
  "processSequence (pre @ steps) ns = pre @ processSequence steps ns"
  unfolding processSequence_def
  by (induction ns arbitrary: steps) (simp_all add: processNode_append)

lemma processSequence_concat:
  "processSequence steps ns = steps @ concat (map nodeSteps ns)"
proof (induction ns arbitrary: steps)
  case Nil
  then show ?case by (simp add: processSequence_def)
next
  case (Cons n ns)
  have "processSequence steps (n # ns) = processSequence (processNode steps n) ns"
    by (simp add: processSequence_def)
  also have "\<dots> = processNode steps n @ concat (map nodeSteps ns)" by (rule Cons.IH)
  also have "processNode steps n = steps @ nodeSteps n"
    using processNode_append [of steps "[]" n] by (simp add: nodeSteps_def processSequence_def)
  finally show ?case by simp
qed

lemma foldl_sequences_concat:
  "foldl (\<lambda>steps s. processSequence steps (seq_children s)) steps sl =
   steps @ concat (map (\<lambda>s. concat (map nodeSteps (seq_children s))) sl)"
proof (induction sl arbitrary: steps)
  case Nil
  then show ?case by simp
next
  case (Cons s sl)
  then show ?case by (simp add: processSequence_concat [of steps])
qed

lemma buildSteps_concat:
  "buildSteps (Some \<lparr> sequenceList = Some sl \<rparr>) =
     concat (map (\<lambda>s. concat (map nodeSteps (seq_children s))) sl)"
  by (simp add: buildSteps_def foldl_sequences_concat)

lemma foldl_addStep_nodes:
  "map nodes (foldl (\<lambda>st child. addStep st [child]) steps cs) = map nodes steps @ map (\<lambda>c. [c]) cs"
  by (induction cs arbitrary: steps) (simp_all add: addStep_def)

lemma nodeSteps_sequence:
  "ntype n = Sequence \<Longrightarrow> children n = Some cs \<Longrightarrow> map nodes (nodeSteps n) = map (\<lambda>c. [c]) cs"
  by (simp add: nodeSteps_def processSequence_def processNode_def foldl_addStep_nodes)

lemma nodeSteps_parallel:
  "ntype n = Parallel \<Longrightarrow> children n = Some cs \<Longrightarrow> map nodes (nodeSteps n) = [cs]"
  by (simp add: nodeSteps_def processSequence_def processNode_def addStep_def)

lemma nodeSteps_leaf:
  "ntype n = Effect \<or> ntype n = Animate \<Longrightarrow> map nodes (nodeSteps n) = [[n]]"
  by (auto simp: nodeSteps_def processSequence_def processNode_def addStep_def)

text \<open>
  Claim C1, as the code has it: the steps of a slide are the steps of the child nodes of its
  top-level sequences, in order, and flattening goes one level deep: a \<open>sequence\<close> node
  emits one single-node step per direct child, unexpanded; a \<open>parallel\<close> node emits exactly
  one step whose members are its direct children; an \<open>effect\<close> or \<open>animate\<close> node emits
  one single-node step. In particular a top-level sequence whose two children are an effect
  or animate node followed by a \<open>parallel\<close> node with three children gives exactly 2 steps,
  the second with those 3 members.
\<close>

theorem buildSteps_one_level:
  "buildSteps (Some \<lparr> sequenceList = Some sl \<rparr>) =
     concat (map (\<lambda>s. concat (map nodeSteps (seq_children s))) sl) \<and>
   (ntype n = Sequence \<and> children n = Some cs \<longrightarrow>
      map nodes (nodeSteps n) = map (\<lambda>c. [c]) cs) \<and>
   (ntype n = Parallel \<and> children n = Some cs \<longrightarrow> map nodes (nodeSteps n) = [cs]) \<and>
   (ntype n = Effect \<or> ntype n = Animate \<longrightarrow> map nodes (nodeSteps n) = [[n]]) \<and>
   ((ntype a = Effect \<or> ntype a = Animate) \<and> ntype p = Parallel \<and> children p = Some [x, y, z] \<longrightarrow>
      length (buildSteps (Some \<lparr> sequenceList = Some [\<lparr> seq_children = [a, p] \<rparr>] \<rparr>)) = 2 \<and>
      map nodes (buildSteps (Some \<lparr> sequenceList = Some [\<lparr> seq_children = [a, p] \<rparr>] \<rparr>)) =
        [[a], [x, y, z]])"
proof (intro conjI impI)
  show "buildSteps (Some \<lparr> sequenceList = Some sl \<rparr>) =
     concat (map (\<lambda>s. concat (map nodeSteps (seq_children s))) sl)"
    by (rule buildSteps_concat)
  assume h: "(ntype a = Effect \<or> ntype a = Animate) \<and> ntype p = Parallel \<and> children p = Some [x, y, z]"
  have m: "map nodes (buildSteps (Some \<lparr> sequenceList = Some [\<lparr> seq_children = [a, p] \<rparr>] \<rparr>)) =
        [[a], [x, y, z]]"
    using h nodeSteps_leaf [of a] nodeSteps_parallel [of p "[x, y, z]"]
    by (simp add: buildSteps_concat)
  then show "map nodes (buildSteps (Some \<lparr> sequenceList = Some [\<lparr> seq_children = [a, p] \<rparr>] \<rparr>)) =
        [[a], [x, y, z]]" .
  from m have "length (map nodes (buildSteps (Some \<lparr> sequenceList = Some [\<lparr> seq_children = [a, p] \<rparr>] \<rparr>))) = 2"
    by simp
  then show "length (buildSteps (Some \<lparr> sequenceList = Some [\<lparr> seq_children = [a, p] \<rparr>] \<rparr>)) = 2"
    by simp
qed (simp_all add: nodeSteps_sequence nodeSteps_parallel nodeSteps_leaf)

theorem buildSteps_one_level_witness:
  "map nodes (buildSteps (timingOf [leaf Effect 1, parallel3])) =
     [[leaf Effect 1], [leaf Effect 2, leaf Effect 3, leaf Effect 4]] \<and>
   map nodes (nodeSteps (AnimationNode Sequence (Some [leaf SetNode 1, parallel3]) JUndefined None None)) =
     [[leaf SetNode 1], [parallel3]]"
proof -
  have a: "ntype (leaf Effect 1) = Effect \<or> ntype (leaf Effect 1) = Animate"
    by (simp add: leaf_def)
  have p: "ntype parallel3 = Parallel"
      "children parallel3 = Some [leaf Effect 2, leaf Effect 3, leaf Effect 4]"
    by (simp_all add: parallel3_def)
  have s: "ntype (AnimationNode Sequence (Some [leaf SetNode 1, parallel3]) JUndefined None None) = Sequence"
      "children (AnimationNode Sequence (Some [leaf SetNode 1, parallel3]) JUndefined None None) =
         Some [leaf SetNode 1, parallel3]"
    by simp_all
  note t = buildSteps_one_level [of "[] :: int AnimationSequence list"
      "AnimationNode Sequence (Some [leaf SetNode 1, parallel3]) JUndefined None None"
      "[leaf SetNode 1, parallel3]" "leaf Effect 1" parallel3
      "leaf Effect 2" "leaf Effect 3" "leaf Effect 4"]
  have 1: "map nodes (buildSteps (timingOf [leaf Effect 1, parallel3])) =
     [[leaf Effect 1], [leaf Effect 2, leaf Effect 3, leaf Effect 4]]"
    unfolding timingOf_def using t a p by blast
  have 2: "map nodes (nodeSteps (AnimationNode Sequence (Some [leaf SetNode 1, parallel3]) JUndefined None None)) =
     [[leaf SetNode 1], [parallel3]]"
    using t s by simp
  from 1 2 show ?thesis by (intro conjI)
qed

text \<open>The claim as stated fails. A \<open>sequence\<close> node (a child of a top-level sequence) with
  two children, the second a \<open>parallel\<close> node with three leaf children, gives 2 steps whose
  second has one member, the unexpanded \<open>parallel\<close> node; and when the two children are the
  children of the top-level sequence itself and the first is a \<open>set\<close> leaf, there is 1
  step only.\<close>

theorem buildSteps_flattening_counterexample:
  "map nodes (buildSteps (timingOf
      [AnimationNode Sequence (Some [leaf Effect 1, parallel3]) JUndefined None None])) =
     [[leaf Effect 1], [parallel3]] \<and>
   length (nodes (buildSteps (timingOf
      [AnimationNode Sequence (Some [leaf Effect 1, parallel3]) JUndefined None None]) ! 1)) \<noteq> 3 \<and>
   length (buildSteps (timingOf [leaf SetNode 1, parallel3])) \<noteq> 2"
  by (simp add: timingOf_def buildSteps_def processSequence_def processNode_def addStep_def
      leaf_def parallel3_def)


section \<open>The timeline\<close>




definition jle :: "jnum \<Rightarrow> jnum \<Rightarrow> bool" where
  "jle a b = (case (a, b) of (Fin x, Fin y) \<Rightarrow> x \<le> y | _ \<Rightarrow> False)"


text \<open>
  A timeline item. The item's \<open>id\<close>, a text made of the timeline's length and the clock,
  is kept as that length.
\<close>

datatype ItemState = Pending | Running | Completed











































lemma jle_refl_finite: "a \<noteq> NaN \<Longrightarrow> jle a a"
  by (cases a) (simp_all add: jle_def)










section \<open>The presentation parser\<close>

text \<open>
  A thrown JavaScript value: an \<open>Error\<close> with its message, or the \<open>TypeError\<close> that
  reading a property of \<open>undefined\<close> or \<open>null\<close>, or calling a method that a value does
  not have, raises. A computation that may throw returns \<open>Inl\<close> of the thrown value.
  \<open>await\<close> is sequencing: a rejected promise is a throw at the \<open>await\<close>.
\<close>

datatype exn = Error string | TypeError

definition bindE :: "exn + 'a \<Rightarrow> ('a \<Rightarrow> exn + 'b) \<Rightarrow> exn + 'b" where
  "bindE m f = (case m of Inl e \<Rightarrow> Inl e | Inr x \<Rightarrow> f x)"

text \<open>A loop over a list whose body may throw.\<close>

fun foldE :: "('s \<Rightarrow> 'a \<Rightarrow> exn + 's) \<Rightarrow> 'a list \<Rightarrow> 's \<Rightarrow> exn + 's" where
  "foldE f [] s = Inr s"
| "foldE f (x # xs) s = bindE (f s x) (foldE f xs)"

text \<open>Property access that throws on \<open>undefined\<close> and \<open>null\<close>; optional chaining
  \<^verbatim>\<open>v?.[k]\<close>.\<close>

definition propT :: "jv \<Rightarrow> string \<Rightarrow> exn + jv" where
  "propT v k = (if v = JUndefined \<or> v = JNull then Inl TypeError else Inr (getProp v k))"

definition propOpt :: "jv \<Rightarrow> string \<Rightarrow> jv" where
  "propOpt v k = (if v = JUndefined \<or> v = JNull then JUndefined else getProp v k)"

text \<open>String methods: \<^verbatim>\<open>s.endsWith(t)\<close>, \<^verbatim>\<open>s.includes(t)\<close> and \<^verbatim>\<open>s.replace(p, r)\<close> with
  a string pattern (the first occurrence is replaced).\<close>

definition endsWith :: "string \<Rightarrow> string \<Rightarrow> bool" where
  "endsWith s suffix = (length suffix \<le> length s \<and> drop (length s - length suffix) s = suffix)"

fun includes_js :: "string \<Rightarrow> string \<Rightarrow> bool" where
  "includes_js [] sub = (sub = [])"
| "includes_js (c # cs) sub = (take (length sub) (c # cs) = sub \<or> includes_js cs sub)"

fun replaceFirst :: "string \<Rightarrow> string \<Rightarrow> string \<Rightarrow> string" where
  "replaceFirst pat rep [] = (if pat = [] then rep else [])"
| "replaceFirst pat rep (c # cs) =
     (if take (length pat) (c # cs) = pat then rep @ drop (length pat) (c # cs)
      else c # replaceFirst pat rep cs)"

text \<open>The same methods called on a value of the tree. The type and target of a
  relationship are strings when they come from attributes; on another value the call is a
  TypeError, except \<open>includes\<close> on an array, which is membership.\<close>

definition includesT :: "jv \<Rightarrow> string \<Rightarrow> exn + bool" where
  "includesT v sub =
     (case v of
        JStr s \<Rightarrow> Inr (includes_js s sub)
      | JArr xs \<Rightarrow> Inr (JStr sub \<in> set xs)
      | _ \<Rightarrow> Inl TypeError)"

definition replaceT :: "jv \<Rightarrow> string \<Rightarrow> string \<Rightarrow> exn + string" where
  "replaceT v pat rep = (case v of JStr s \<Rightarrow> Inr (replaceFirst pat rep s) | _ \<Rightarrow> Inl TypeError)"

definition resolvePathT :: "string \<Rightarrow> jv \<Rightarrow> exn + string" where
  "resolvePathT basePath v =
     (case v of JStr s \<Rightarrow> Inr (resolvePath basePath s) | _ \<Rightarrow> Inl TypeError)"

text \<open>
  The collaborators of \<open>PPTXParser\<close> are parameters: the XML library (\<open>None\<close> when it
  throws on the text), the theme parser, and what the slide parser builds from a master,
  layout or slide part besides the linkage fields (name, background, elements and so on:
  the body). The extraction of the binary resources, which reads the archive and the themes
  and cannot throw, is a parameter too.
\<close>

record ('th, 'b, 'r) Collaborators =
  xml_parse :: "string \<Rightarrow> jv option"
  theme_parse :: "jv \<Rightarrow> exn + 'th"
  master_body :: "jv \<Rightarrow> RelMap \<Rightarrow> exn + 'b"
  layout_body :: "jv \<Rightarrow> RelMap \<Rightarrow> exn + 'b"
  slide_body :: "jv \<Rightarrow> RelMap \<Rightarrow> jv \<Rightarrow> exn + 'b"
  resources_of :: "(string \<times> string) list \<Rightarrow> (string \<times> 'th) list \<Rightarrow> 'r"

record ParserOptions =
  parseNotes :: bool

record ParseWarning =
  warn_code :: string
  warn_message :: string
  warn_location :: "string option"

record ParseError =
  err_code :: string
  err_message :: string
  err_fatal :: bool

record 'b SlideLayout =
  layout_id :: string
  layout_masterId :: string
  layout_body_of :: 'b

record ('th, 'b) SlideMaster =
  master_id :: string
  master_theme :: "'th option"
  master_body_of :: 'b
  master_layouts :: "'b SlideLayout list"

record 'b Slide =
  slide_id :: jnum
  slide_index :: nat
  layoutId :: string
  masterId :: string
  slide_body_of :: 'b

record PresentationProperties =
  slideWidth :: jnum
  slideHeight :: jnum
  firstSlideNumber :: jnum
  rtl :: bool
  removePersonalInfo :: bool
  embedTrueTypeFonts :: bool
  saveSubsetFonts :: bool

text \<open>The metadata is kept as the two parsed property parts it is extracted from
  (\<open>docProps/core.xml\<close> and \<open>docProps/app.xml\<close>, \<open>JNull\<close> when absent).\<close>

record ('th, 'b, 'r) Presentation =
  properties :: PresentationProperties
  metadata :: "jv \<times> jv"
  pres_masters :: "('th, 'b) SlideMaster list"
  pres_slides :: "'b Slide list"
  resources :: 'r

record ('th, 'b, 'r) ParseResult =
  presentation :: "('th, 'b, 'r) Presentation"
  result_warnings :: "ParseWarning list"
  result_errors :: "ParseError list"

text \<open>The private state of a \<open>PPTXParser\<close>; the archive is a list of (path, text), the
  paths distinct, in the order of \<^verbatim>\<open>Object.keys(zip.files)\<close>.\<close>

record ('th, 'b) ParserState =
  warnings :: "ParseWarning list"
  errors :: "ParseError list"
  contentTypes :: "(jv \<times> jv) list"
  relationships :: "(string \<times> RelMap) list"
  themes :: "(string \<times> 'th) list"
  masters :: "(string \<times> ('th, 'b) SlideMaster) list"
  layouts :: "(string \<times> 'b SlideLayout) list"

definition reset :: "('th, 'b) ParserState" where
  "reset = \<lparr> warnings = [], errors = [], contentTypes = [], relationships = [], themes = [],
     masters = [], layouts = [] \<rparr>"

definition addWarning ::
  "string \<Rightarrow> string \<Rightarrow> string \<Rightarrow> ('th, 'b) ParserState \<Rightarrow> ('th, 'b) ParserState" where
  "addWarning code message location st =
     st \<lparr> warnings := warnings st @
       [\<lparr> warn_code = code, warn_message = message, warn_location = Some location \<rparr>] \<rparr>"

text \<open>\<open>readXml\<close>: a missing file is a warning and \<open>null\<close>.\<close>

definition readXml ::
  "('th, 'b, 'r) Collaborators \<Rightarrow> (string \<times> string) list \<Rightarrow> string \<Rightarrow>
   ('th, 'b) ParserState \<Rightarrow> exn + (jv \<times> ('th, 'b) ParserState)" where
  "readXml C ar path st =
     (case map_of ar path of
        None \<Rightarrow> Inr (JNull, addWarning ''FILE_NOT_FOUND'' (''File not found: '' @ path) path st)
      | Some content \<Rightarrow>
          (case xml_parse C content of
             None \<Rightarrow> Inl (Error ''Failed to parse XML'')
           | Some xml \<Rightarrow> Inr (xml, st)))"

definition contentTypeStep ::
  "string \<Rightarrow> bool \<Rightarrow> ('th, 'b) ParserState \<Rightarrow> jv \<Rightarrow> exn + ('th, 'b) ParserState" where
  "contentTypeStep keyAttr dotted st entry =
     bindE (propT entry keyAttr) (\<lambda>key.
     bindE (propT entry ''@_ContentType'') (\<lambda>contentType.
       if truthy key \<and> truthy contentType
       then Inr (st \<lparr> contentTypes :=
              mapSet (if dotted then JStr (''.'' @ toStr key) else key) contentType
                (contentTypes st) \<rparr>)
       else Inr st))"

definition parseContentTypes ::
  "('th, 'b, 'r) Collaborators \<Rightarrow> (string \<times> string) list \<Rightarrow>
   ('th, 'b) ParserState \<Rightarrow> exn + ('th, 'b) ParserState" where
  "parseContentTypes C ar st =
     bindE (readXml C ar ''[Content_Types].xml'' st) (\<lambda>(xml, st).
       if \<not> truthy xml then Inl (Error ''Missing [Content_Types].xml'')
       else
         (let types = getProp xml ''Types'' in
          bindE (propT types ''Default'') (\<lambda>defaults.
          bindE (foldE (contentTypeStep ''@_Extension'' True) (ensureArray defaults) st) (\<lambda>st.
          bindE (propT types ''Override'') (\<lambda>overrides.
            foldE (contentTypeStep ''@_PartName'' False) (ensureArray overrides) st)))))"

definition getRelationshipsPath :: "string \<Rightarrow> string" where
  "getRelationshipsPath filePath =
     (let parts = split_js CHR ''/'' filePath;
          fileName = last parts
      in join_js ''/'' (butlast parts @ [''_rels'', fileName @ ''.rels'']))"

definition parseRelationships ::
  "('th, 'b, 'r) Collaborators \<Rightarrow> (string \<times> string) list \<Rightarrow> string \<Rightarrow>
   ('th, 'b) ParserState \<Rightarrow> exn + (RelMap \<times> ('th, 'b) ParserState)" where
  "parseRelationships C ar forPath st =
     (let relsPath = getRelationshipsPath forPath
      in case map_of (relationships st) forPath of
           Some rels \<Rightarrow> Inr (rels, st)
         | None \<Rightarrow>
             bindE (readXml C ar relsPath st) (\<lambda>(xml, st).
               (let rels = RelationshipParser_parse xml forPath
                in Inr (rels, st \<lparr> relationships := mapSet forPath rels (relationships st) \<rparr>))))"

text \<open>The loop \<^verbatim>\<open>for (const [, rel] of rels) { if (rel.type.includes(kind)) { ...; break } }\<close>:
  the first relationship whose type includes the kind.\<close>

fun firstOfKind :: "RelMap \<Rightarrow> string \<Rightarrow> exn + RelEntry option" where
  "firstOfKind [] kind = Inr None"
| "firstOfKind ((k, rel) # rest) kind =
     bindE (includesT (rel_type rel) kind) (\<lambda>found.
       if found then Inr (Some rel) else firstOfKind rest kind)"

definition themeStep ::
  "('th, 'b, 'r) Collaborators \<Rightarrow> (string \<times> string) list \<Rightarrow>
   ('th, 'b) ParserState \<Rightarrow> string \<Rightarrow> exn + ('th, 'b) ParserState" where
  "themeStep C ar st themePath =
     bindE (readXml C ar themePath st) (\<lambda>(xml, st).
       if truthy xml
       then bindE (theme_parse C xml) (\<lambda>theme.
              Inr (st \<lparr> themes := mapSet themePath theme (themes st) \<rparr>))
       else Inr st)"

definition parseThemes ::
  "('th, 'b, 'r) Collaborators \<Rightarrow> (string \<times> string) list \<Rightarrow>
   ('th, 'b) ParserState \<Rightarrow> exn + ('th, 'b) ParserState" where
  "parseThemes C ar st =
     foldE (themeStep C ar)
       (filter (\<lambda>path. startsWith path ''ppt/theme/'' \<and> endsWith path ''.xml'') (map fst ar)) st"

text \<open>\<open>SlideParser.parseMaster\<close>, \<open>parseLayout\<close> and \<open>parseSlide\<close>: the linkage fields
  are the arguments, unchanged.\<close>

definition parseMaster ::
  "('th, 'b, 'r) Collaborators \<Rightarrow> jv \<Rightarrow> string \<Rightarrow> 'th option \<Rightarrow> RelMap \<Rightarrow>
   exn + ('th, 'b) SlideMaster" where
  "parseMaster C xml path theme rels =
     bindE (master_body C xml rels) (\<lambda>body.
       Inr \<lparr> master_id = path, master_theme = theme, master_body_of = body,
             master_layouts = [] \<rparr>)"

definition parseLayout ::
  "('th, 'b, 'r) Collaborators \<Rightarrow> jv \<Rightarrow> string \<Rightarrow> string \<Rightarrow> RelMap \<Rightarrow> exn + 'b SlideLayout" where
  "parseLayout C xml path mId rels =
     bindE (layout_body C xml rels) (\<lambda>body.
       Inr \<lparr> layout_id = path, layout_masterId = mId, layout_body_of = body \<rparr>)"

definition parseSlide ::
  "('th, 'b, 'r) Collaborators \<Rightarrow> jv \<Rightarrow> jnum \<Rightarrow> nat \<Rightarrow> string \<Rightarrow> string \<Rightarrow> RelMap \<Rightarrow> jv \<Rightarrow>
   exn + 'b Slide" where
  "parseSlide C xml sid index lId mId rels notesXml =
     bindE (slide_body C xml rels notesXml) (\<lambda>body.
       Inr \<lparr> slide_id = sid, slide_index = index, layoutId = lId, masterId = mId,
             slide_body_of = body \<rparr>)"

definition masterStep ::
  "('th, 'b, 'r) Collaborators \<Rightarrow> (string \<times> string) list \<Rightarrow>
   ('th, 'b) ParserState \<Rightarrow> string \<Rightarrow> exn + ('th, 'b) ParserState" where
  "masterStep C ar st masterPath =
     bindE (readXml C ar masterPath st) (\<lambda>(xml, st).
       if \<not> truthy xml then Inr st
       else
         bindE (parseRelationships C ar masterPath st) (\<lambda>(rels, st).
         bindE (firstOfKind rels ''theme'') (\<lambda>themeRel.
         bindE (case themeRel of
                  None \<Rightarrow> Inr None
                | Some rel \<Rightarrow>
                    bindE (resolvePathT masterPath (rel_target rel)) (\<lambda>themePath.
                      Inr (map_of (themes st) themePath))) (\<lambda>theme.
           (let theme = (case theme of
                           None \<Rightarrow> (case themes st of [] \<Rightarrow> None | (p, t) # rest \<Rightarrow> Some t)
                         | Some t \<Rightarrow> Some t)
            in bindE (parseMaster C xml masterPath theme rels) (\<lambda>master.
                 Inr (st \<lparr> masters := mapSet masterPath master (masters st) \<rparr>)))))))"

definition parseSlideMasters ::
  "('th, 'b, 'r) Collaborators \<Rightarrow> (string \<times> string) list \<Rightarrow>
   ('th, 'b) ParserState \<Rightarrow> exn + ('th, 'b) ParserState" where
  "parseSlideMasters C ar st =
     foldE (masterStep C ar)
       (filter (\<lambda>path. startsWith path ''ppt/slideMasters/'' \<and> endsWith path ''.xml'' \<and>
                       \<not> includes_js path ''_rels'') (map fst ar)) st"

definition layoutStep ::
  "('th, 'b, 'r) Collaborators \<Rightarrow> (string \<times> string) list \<Rightarrow>
   ('th, 'b) ParserState \<Rightarrow> string \<Rightarrow> exn + ('th, 'b) ParserState" where
  "layoutStep C ar st layoutPath =
     bindE (readXml C ar layoutPath st) (\<lambda>(xml, st).
       if \<not> truthy xml then Inr st
       else
         bindE (parseRelationships C ar layoutPath st) (\<lambda>(rels, st).
         bindE (firstOfKind rels ''slideMaster'') (\<lambda>masterRel.
         bindE (case masterRel of
                  None \<Rightarrow> Inr []
                | Some rel \<Rightarrow> resolvePathT layoutPath (rel_target rel)) (\<lambda>mId.
         bindE (parseLayout C xml layoutPath mId rels) (\<lambda>layout.
           Inr (st \<lparr> layouts := mapSet layoutPath layout (layouts st),
                     masters := map (\<lambda>(p, master).
                         if p = mId
                         then (p, master \<lparr> master_layouts := master_layouts master @ [layout] \<rparr>)
                         else (p, master)) (masters st) \<rparr>))))))"

definition parseSlideLayouts ::
  "('th, 'b, 'r) Collaborators \<Rightarrow> (string \<times> string) list \<Rightarrow>
   ('th, 'b) ParserState \<Rightarrow> exn + ('th, 'b) ParserState" where
  "parseSlideLayouts C ar st =
     foldE (layoutStep C ar)
       (filter (\<lambda>path. startsWith path ''ppt/slideLayouts/'' \<and> endsWith path ''.xml'' \<and>
                       \<not> includes_js path ''_rels'') (map fst ar)) st"

definition parsePresentationProperties ::
  "('th, 'b, 'r) Collaborators \<Rightarrow> (string \<times> string) list \<Rightarrow>
   ('th, 'b) ParserState \<Rightarrow> exn + (PresentationProperties \<times> ('th, 'b) ParserState)" where
  "parsePresentationProperties C ar st =
     bindE (readXml C ar ''ppt/presentation.xml'' st) (\<lambda>(xml, st).
       if \<not> truthy xml then Inl (Error ''Missing presentation.xml'')
       else
         (let pres = orElse (getProp xml ''p:presentation'') (getProp xml ''presentation'') in
          bindE (propT pres ''p:sldSz'') (\<lambda>a.
          bindE (if truthy a then Inr a else propT pres ''sldSz'') (\<lambda>sldSz.
            Inr (\<lparr> slideWidth = parseInt10 (toStr (orElse (propOpt sldSz ''@_cx'') (JStr ''9144000''))),
                   slideHeight = parseInt10 (toStr (orElse (propOpt sldSz ''@_cy'') (JStr ''6858000''))),
                   firstSlideNumber =
                     parseInt10 (toStr (orElse (getProp pres ''@_firstSlideNum'') (JStr ''1''))),
                   rtl = (getProp pres ''@_rtl'' = JStr ''true'' \<or> getProp pres ''@_rtl'' = JStr ''1''),
                   removePersonalInfo = (getProp pres ''@_removePersonalInfoOnSave'' = JStr ''true''),
                   embedTrueTypeFonts = (getProp pres ''@_embedTrueTypeFonts'' = JStr ''true''),
                   saveSubsetFonts = (getProp pres ''@_saveSubsetFonts'' = JStr ''true'') \<rparr>,
                 st)))))"

definition parseMetadata ::
  "('th, 'b, 'r) Collaborators \<Rightarrow> (string \<times> string) list \<Rightarrow>
   ('th, 'b) ParserState \<Rightarrow> exn + ((jv \<times> jv) \<times> ('th, 'b) ParserState)" where
  "parseMetadata C ar st =
     bindE (readXml C ar ''docProps/core.xml'' st) (\<lambda>(coreXml, st).
     bindE (readXml C ar ''docProps/app.xml'' st) (\<lambda>(extXml, st).
       Inr ((coreXml, extXml), st)))"

text \<open>The linkage of a slide, from its relationships: the layout id is the resolved target
  of the first \<open>slideLayout\<close> relationship, \<open>''\<close> when there is none; the master id is
  \<^verbatim>\<open>layout?.masterId || ''\<close> for the layout registered under that id.\<close>

definition slideLinkage ::
  "(string \<times> 'b SlideLayout) list \<Rightarrow> string \<Rightarrow> RelMap \<Rightarrow> exn + (string \<times> string)" where
  "slideLinkage lts slidePath slideRels =
     bindE (firstOfKind slideRels ''slideLayout'') (\<lambda>layoutRel.
     bindE (case layoutRel of
              None \<Rightarrow> Inr []
            | Some rel \<Rightarrow> resolvePathT slidePath (rel_target rel)) (\<lambda>lId.
       Inr (lId, (case map_of lts lId of None \<Rightarrow> [] | Some layout \<Rightarrow> layout_masterId layout))))"

definition readNotes ::
  "('th, 'b, 'r) Collaborators \<Rightarrow> ParserOptions \<Rightarrow> (string \<times> string) list \<Rightarrow> string \<Rightarrow> RelMap \<Rightarrow>
   ('th, 'b) ParserState \<Rightarrow> exn + (jv \<times> ('th, 'b) ParserState)" where
  "readNotes C opts ar slidePath slideRels st =
     (if parseNotes opts
      then bindE (firstOfKind slideRels ''notesSlide'') (\<lambda>notesRel.
             case notesRel of
               None \<Rightarrow> Inr (JNull, st)
             | Some rel \<Rightarrow>
                 bindE (resolvePathT slidePath (rel_target rel)) (\<lambda>notesPath.
                   readXml C ar notesPath st))
      else Inr (JNull, st))"

text \<open>The body of the loop of \<open>parseSlides\<close> on the pair of the slides so far and the
  state, for the index \<open>i\<close> and the entry \<open>sldIds[i]\<close>.\<close>

fun slideStep ::
  "('th, 'b, 'r) Collaborators \<Rightarrow> ParserOptions \<Rightarrow> (string \<times> string) list \<Rightarrow> RelMap \<Rightarrow>
   'b Slide list \<times> ('th, 'b) ParserState \<Rightarrow> nat \<times> jv \<Rightarrow>
   exn + ('b Slide list \<times> ('th, 'b) ParserState)" where
  "slideStep C opts ar presRels (slides, st) (i, sldId) =
     bindE (propT sldId ''@_id'') (\<lambda>idAttr.
       (let slideId = parseInt10 (toStr idAttr);
            rId = orElse (getProp sldId ''@_r:id'') (getProp sldId ''@_rid'')
        in (case map_of presRels rId of
              None \<Rightarrow> Inr (slides, st)
            | Some rel \<Rightarrow>
                bindE (replaceT (rel_target rel) ''../'' []) (\<lambda>t.
                  (let slidePath = ''ppt/'' @ t in
                   bindE (readXml C ar slidePath st) (\<lambda>(slideXml, st).
                     if \<not> truthy slideXml then Inr (slides, st)
                     else
                       bindE (parseRelationships C ar slidePath st) (\<lambda>(slideRels, st).
                       bindE (slideLinkage (layouts st) slidePath slideRels) (\<lambda>(lId, mId).
                       bindE (readNotes C opts ar slidePath slideRels st) (\<lambda>(notesXml, st).
                       bindE (parseSlide C slideXml slideId i lId mId slideRels notesXml) (\<lambda>slide.
                         Inr (slides @ [slide], st)))))))))))"

definition parseSlides ::
  "('th, 'b, 'r) Collaborators \<Rightarrow> ParserOptions \<Rightarrow> (string \<times> string) list \<Rightarrow>
   ('th, 'b) ParserState \<Rightarrow> exn + ('b Slide list \<times> ('th, 'b) ParserState)" where
  "parseSlides C opts ar st =
     bindE (readXml C ar ''ppt/presentation.xml'' st) (\<lambda>(presXml, st).
       if \<not> truthy presXml then Inr ([], st)
       else
         (let pres = orElse (getProp presXml ''p:presentation'') (getProp presXml ''presentation'') in
          bindE (propT pres ''p:sldIdLst'') (\<lambda>a.
          bindE (if truthy a then Inr a else propT pres ''sldIdLst'') (\<lambda>sldIdLst.
            if \<not> truthy sldIdLst then Inr ([], st)
            else
              (let sldIds = ensureArray (orElse (getProp sldIdLst ''p:sldId'') (getProp sldIdLst ''sldId'')) in
               bindE (parseRelationships C ar ''ppt/presentation.xml'' st) (\<lambda>(presRels, st).
                 foldE (slideStep C opts ar presRels) (List.enumerate 0 sldIds) ([], st)))))))"

text \<open>\<open>PPTXParser.parse\<close> on a loaded archive. The \<open>catch\<close> block records the error in the
  parser and throws it again, so a throw anywhere is the outcome of \<open>parse\<close>.\<close>

definition PPTXParser_parse ::
  "('th, 'b, 'r) Collaborators \<Rightarrow> ParserOptions \<Rightarrow> (string \<times> string) list \<Rightarrow>
   exn + ('th, 'b, 'r) ParseResult" where
  "PPTXParser_parse C opts ar =
     bindE (parseContentTypes C ar reset) (\<lambda>st.
     bindE (parseRelationships C ar ''ppt/presentation.xml'' st) (\<lambda>(presRels, st).
     bindE (parseThemes C ar st) (\<lambda>st.
     bindE (parseSlideMasters C ar st) (\<lambda>st.
     bindE (parseSlideLayouts C ar st) (\<lambda>st.
     bindE (parsePresentationProperties C ar st) (\<lambda>(props, st).
     bindE (parseMetadata C ar st) (\<lambda>(meta, st).
     bindE (parseSlides C opts ar st) (\<lambda>(slides, st).
       Inr \<lparr> presentation =
               \<lparr> properties = props, metadata = meta, pres_masters = map snd (masters st),
                 pres_slides = slides, resources = resources_of C ar (themes st) \<rparr>,
             result_warnings = warnings st,
             result_errors = filter (\<lambda>e. \<not> err_fatal e) (errors st) \<rparr>))))))))"

text \<open>Sample archives. The XML library is a table from the text of a part to its tree; on a
  text outside the table it throws. The other collaborators build nothing.\<close>

definition sampleTrees :: "(string \<times> jv) list" where
  "sampleTrees =
     [(''<Types/>'', JObj [(''Types'', JObj [(''Default'',
          JArr [relElem [(''Extension'', ''xml''), (''ContentType'', ''application/xml'')]])])]),
      (''<p:presentation/>'', JObj [(''p:presentation'', JObj
         [(''p:sldSz'', relElem [(''cx'', ''960''), (''cy'', ''540'')]),
          (''p:sldIdLst'',
             JObj [(''p:sldId'', JArr [relElem [(''id'', ''256''), (''r:id'', ''rId1'')]])])])]),
      (''<Relationships slide/>'', relsDoc [relElem [(''Id'', ''rId1''),
          (''Type'', ''http://schemas.openxmlformats.org/officeDocument/2006/relationships/slide''),
          (''Target'', ''slides/slide1.xml'')]]),
      (''<p:sld/>'', JObj [(''p:sld'', JObj [(''p:cSld'', JObj [])])]),
      (''<Relationships image/>'', relsDoc [relElem [(''Id'', ''rId1''),
          (''Type'', ''http://schemas.openxmlformats.org/officeDocument/2006/relationships/image''),
          (''Target'', ''../media/image1.png'')]]),
      (''<Relationships layout9/>'', relsDoc [relElem [(''Id'', ''rId1''),
          (''Type'', ''http://schemas.openxmlformats.org/officeDocument/2006/relationships/slideLayout''),
          (''Target'', ''../slideLayouts/slideLayout9.xml'')]])]"

definition sampleC :: "(unit, unit, unit) Collaborators" where
  "sampleC = \<lparr> xml_parse = map_of sampleTrees,
     theme_parse = (\<lambda>xml. Inr ()),
     master_body = (\<lambda>xml rels. Inr ()),
     layout_body = (\<lambda>xml rels. Inr ()),
     slide_body = (\<lambda>xml rels notesXml. Inr ()),
     resources_of = (\<lambda>ar ths. ()) \<rparr>"

definition sampleOpts :: ParserOptions where
  "sampleOpts = \<lparr> parseNotes = True \<rparr>"

definition archiveWith :: "string \<Rightarrow> (string \<times> string) list" where
  "archiveWith slideRelsText =
     [(''[Content_Types].xml'', ''<Types/>''),
      (''ppt/presentation.xml'', ''<p:presentation/>''),
      (''ppt/_rels/presentation.xml.rels'', ''<Relationships slide/>''),
      (''ppt/slides/slide1.xml'', ''<p:sld/>''),
      (''ppt/slides/_rels/slide1.xml.rels'', slideRelsText)]"

text \<open>An XML library that does not throw on a presentation part whose elements are not
  closed, and gives the tree of the elements that it has read; an archive with such a
  part.\<close>

definition lenientC :: "(unit, unit, unit) Collaborators" where
  "lenientC = sampleC \<lparr> xml_parse :=
     (\<lambda>content. if content = ''<p:presentation><p:sldSz><p:sldIdLst><p:sldId>''
                then map_of sampleTrees ''<p:presentation/>''
                else map_of sampleTrees content) \<rparr>"

definition unclosedArchive :: "(string \<times> string) list" where
  "unclosedArchive =
     [(''[Content_Types].xml'', ''<Types/>''),
      (''ppt/presentation.xml'', ''<p:presentation><p:sldSz><p:sldIdLst><p:sldId>''),
      (''ppt/_rels/presentation.xml.rels'', ''<Relationships slide/>''),
      (''ppt/slides/slide1.xml'', ''<p:sld/>''),
      (''ppt/slides/_rels/slide1.xml.rels'', ''<Relationships image/>'')]"

text \<open>The layout and master ids of the slides of a result.\<close>

definition slideLinks :: "exn + ('th, 'b, 'r) ParseResult \<Rightarrow> (string \<times> string) list option" where
  "slideLinks res =
     (case res of
        Inl e \<Rightarrow> None
      | Inr r \<Rightarrow> Some (map (\<lambda>s. (layoutId s, masterId s)) (pres_slides (presentation r))))"

definition sampleSldId :: jv where
  "sampleSldId = relElem [(''id'', ''256''), (''r:id'', ''rId1'')]"

definition samplePresRels :: RelMap where
  "samplePresRels = [(JStr ''rId1'', \<lparr> rel_target = JStr ''slides/slide1.xml'',
     rel_type = JStr ''http://schemas.openxmlformats.org/officeDocument/2006/relationships/slide'' \<rparr>)]"

definition imageRels :: RelMap where
  "imageRels = [(JStr ''rId1'', \<lparr> rel_target = JStr ''../media/image1.png'',
     rel_type = JStr ''http://schemas.openxmlformats.org/officeDocument/2006/relationships/image'' \<rparr>)]"

definition layout9Rels :: RelMap where
  "layout9Rels = [(JStr ''rId1'', \<lparr> rel_target = JStr ''../slideLayouts/slideLayout9.xml'',
     rel_type = JStr ''http://schemas.openxmlformats.org/officeDocument/2006/relationships/slideLayout'' \<rparr>)]"

definition withRels :: "RelMap \<Rightarrow> (unit, unit) ParserState" where
  "withRels rels = reset \<lparr> relationships := [(''ppt/slides/slide1.xml'', rels)] \<rparr>"


section \<open>Fatal errors of the top-level parse\<close>

lemma bindE_Inl: "m = Inl e \<Longrightarrow> bindE m f = Inl e"
  by (simp add: bindE_def)

lemma bindE_Inr: "m = Inr x \<Longrightarrow> bindE m f = f x"
  by (simp add: bindE_def)

lemma bindE_fails: "(\<And>x. \<exists>e. f x = Inl e) \<Longrightarrow> \<exists>e. bindE m f = Inl e"
  by (cases m) (simp_all add: bindE_def)

lemma foldE_fails:
  "x \<in> set xs \<Longrightarrow> (\<And>s. \<exists>e. f s x = Inl e) \<Longrightarrow> \<exists>e. foldE f xs s = Inl e"
proof (induction xs arbitrary: s)
  case Nil
  then show ?case by simp
next
  case (Cons y ys)
  show ?case
  proof (cases "x = y")
    case True
    with Cons.prems(2) [of s] show ?thesis by (auto simp: bindE_def)
  next
    case False
    with Cons have "\<And>s'. \<exists>e. foldE f ys s' = Inl e" by simp
    then show ?thesis by (simp add: bindE_fails)
  qed
qed

lemma readXml_missing:
  "map_of ar path = None \<Longrightarrow>
   readXml C ar path st =
     Inr (JNull, addWarning ''FILE_NOT_FOUND'' (''File not found: '' @ path) path st)"
  by (simp add: readXml_def)

lemma readXml_xml_throws:
  "map_of ar path = Some content \<Longrightarrow> xml_parse C content = None \<Longrightarrow>
   readXml C ar path st = Inl (Error ''Failed to parse XML'')"
  by (simp add: readXml_def)

lemma parseContentTypes_missing:
  "map_of ar ''[Content_Types].xml'' = None \<Longrightarrow>
   parseContentTypes C ar st = Inl (Error ''Missing [Content_Types].xml'')"
  by (simp add: parseContentTypes_def readXml_missing bindE_def)

lemma parseContentTypes_xml_throws:
  "map_of ar ''[Content_Types].xml'' = Some content \<Longrightarrow> xml_parse C content = None \<Longrightarrow>
   parseContentTypes C ar st = Inl (Error ''Failed to parse XML'')"
  by (simp add: parseContentTypes_def readXml_xml_throws bindE_def)

lemma parsePresentationProperties_missing:
  "map_of ar ''ppt/presentation.xml'' = None \<Longrightarrow>
   parsePresentationProperties C ar st = Inl (Error ''Missing presentation.xml'')"
  by (simp add: parsePresentationProperties_def readXml_missing bindE_def)

lemma parsePresentationProperties_xml_throws:
  "map_of ar ''ppt/presentation.xml'' = Some content \<Longrightarrow> xml_parse C content = None \<Longrightarrow>
   parsePresentationProperties C ar st = Inl (Error ''Failed to parse XML'')"
  by (simp add: parsePresentationProperties_def readXml_xml_throws bindE_def)

lemma parse_fails_at_properties:
  assumes "\<And>st. \<exists>e. parsePresentationProperties C ar st = Inl e"
  shows "\<exists>e. PPTXParser_parse C opts ar = Inl e"
proof -
  have h: "\<exists>e. bindE (parsePresentationProperties C ar st) f = Inl e"
    for st and f :: "PresentationProperties \<times> ('a, 'b) ParserState \<Rightarrow> exn + ('a, 'b, 'c) ParseResult"
    using assms [of st] by (auto simp: bindE_def)
  show ?thesis
    unfolding PPTXParser_parse_def
    apply (rule bindE_fails)
    apply (rule bindE_fails)
    apply (simp only: split_paired_all prod.case)
    apply (rule bindE_fails)
    apply (rule bindE_fails)
    apply (rule bindE_fails)
    apply (rule h)
    done
qed

lemma parse_fails_at_themes:
  assumes "\<And>st. \<exists>e. parseThemes C ar st = Inl e"
  shows "\<exists>e. PPTXParser_parse C opts ar = Inl e"
proof -
  have h: "\<exists>e. bindE (parseThemes C ar st) f = Inl e"
    for st and f :: "('a, 'b) ParserState \<Rightarrow> exn + ('a, 'b, 'c) ParseResult"
    using assms [of st] by (auto simp: bindE_def)
  show ?thesis
    unfolding PPTXParser_parse_def
    apply (rule bindE_fails)
    apply (rule bindE_fails)
    apply (simp only: split_paired_all prod.case)
    apply (rule h)
    done
qed

lemma themeStep_xml_throws:
  "map_of ar path = Some content \<Longrightarrow> xml_parse C content = None \<Longrightarrow>
   themeStep C ar st path = Inl (Error ''Failed to parse XML'')"
  by (simp add: themeStep_def readXml_xml_throws bindE_def)

lemma parseThemes_xml_throws:
  assumes "map_of ar path = Some content" "xml_parse C content = None"
    "startsWith path ''ppt/theme/''" "endsWith path ''.xml''"
  shows "\<exists>e. parseThemes C ar st = Inl e"
proof -
  from assms(1) have "path \<in> set (map fst ar)" by (force dest: map_of_SomeD)
  with assms(3,4) have "path \<in> set (filter (\<lambda>path. startsWith path ''ppt/theme/'' \<and>
      endsWith path ''.xml'') (map fst ar))" by simp
  then show ?thesis
    unfolding parseThemes_def
    by (rule foldE_fails) (simp add: themeStep_xml_throws [OF assms(1,2)])
qed

lemma foldE_invariant:
  assumes "\<And>s x s'. f s x = Inr s' \<Longrightarrow> P s \<Longrightarrow> P s'"
  shows "foldE f xs s = Inr s' \<Longrightarrow> P s \<Longrightarrow> P s'"
proof (induction xs arbitrary: s)
  case Nil
  then show ?case by simp
next
  case (Cons x xs)
  from Cons.prems(1) obtain s1 where 1: "f s x = Inr s1" and 2: "foldE f xs s1 = Inr s'"
    by (auto simp: bindE_def split: sum.splits)
  from assms [OF 1 Cons.prems(2)] have "P s1" .
  with Cons.IH [OF 2] show ?case .
qed

lemma readXml_errors: "readXml C ar path st = Inr (x, st') \<Longrightarrow> errors st' = errors st"
  by (auto simp: readXml_def addWarning_def split: option.splits)

lemma contentTypeStep_errors:
  "contentTypeStep k d st entry = Inr st' \<Longrightarrow> errors st' = errors st"
  by (auto simp: contentTypeStep_def bindE_def split: sum.splits if_splits)

lemma parseContentTypes_errors:
  assumes "parseContentTypes C ar st = Inr st'"
  shows "errors st' = errors st"
proof -
  from assms obtain xml st1 defaults st2 overrides where
    r: "readXml C ar ''[Content_Types].xml'' st = Inr (xml, st1)" and
    d: "foldE (contentTypeStep ''@_Extension'' True) (ensureArray defaults) st1 = Inr st2" and
    ov: "foldE (contentTypeStep ''@_PartName'' False) (ensureArray overrides) st2 = Inr st'"
    by (auto simp: parseContentTypes_def bindE_def Let_def split: sum.splits if_splits prod.splits)
  have "errors st2 = errors st1"
    using foldE_invariant [where P = "\<lambda>s. errors s = errors st1", OF _ d]
    by (simp add: contentTypeStep_errors)
  moreover have "errors st' = errors st2"
    using foldE_invariant [where P = "\<lambda>s. errors s = errors st2", OF _ ov]
    by (simp add: contentTypeStep_errors)
  ultimately show ?thesis using readXml_errors [OF r] by simp
qed

lemma parseRelationships_errors:
  "parseRelationships C ar p st = Inr (rels, st') \<Longrightarrow> errors st' = errors st"
  by (auto simp: parseRelationships_def bindE_def Let_def dest: readXml_errors
      split: option.splits sum.splits prod.splits)

lemma themeStep_errors: "themeStep C ar st p = Inr st' \<Longrightarrow> errors st' = errors st"
  by (auto simp: themeStep_def bindE_def dest: readXml_errors
      split: sum.splits prod.splits if_splits)

lemma parseThemes_errors: "parseThemes C ar st = Inr st' \<Longrightarrow> errors st' = errors st"
  unfolding parseThemes_def
  using foldE_invariant [where P = "\<lambda>s. errors s = errors st" and f = "themeStep C ar"]
  by (simp add: themeStep_errors)

lemma masterStep_errors: "masterStep C ar st p = Inr st' \<Longrightarrow> errors st' = errors st"
  by (auto simp: masterStep_def bindE_def Let_def dest!: readXml_errors parseRelationships_errors
      split: sum.splits prod.splits if_splits)

lemma parseSlideMasters_errors: "parseSlideMasters C ar st = Inr st' \<Longrightarrow> errors st' = errors st"
  unfolding parseSlideMasters_def
  using foldE_invariant [where P = "\<lambda>s. errors s = errors st" and f = "masterStep C ar"]
  by (simp add: masterStep_errors)

lemma layoutStep_errors: "layoutStep C ar st p = Inr st' \<Longrightarrow> errors st' = errors st"
  by (auto simp: layoutStep_def bindE_def Let_def dest!: readXml_errors parseRelationships_errors
      split: sum.splits prod.splits if_splits)

lemma parseSlideLayouts_errors: "parseSlideLayouts C ar st = Inr st' \<Longrightarrow> errors st' = errors st"
  unfolding parseSlideLayouts_def
  using foldE_invariant [where P = "\<lambda>s. errors s = errors st" and f = "layoutStep C ar"]
  by (simp add: layoutStep_errors)

lemma parsePresentationProperties_errors:
  "parsePresentationProperties C ar st = Inr (p, st') \<Longrightarrow> errors st' = errors st"
  by (auto simp: parsePresentationProperties_def bindE_def Let_def dest!: readXml_errors
      split: sum.splits prod.splits if_splits)

lemma parseMetadata_errors:
  "parseMetadata C ar st = Inr (m, st') \<Longrightarrow> errors st' = errors st"
  by (auto simp: parseMetadata_def bindE_def dest!: readXml_errors
      split: sum.splits prod.splits)

lemma readNotes_errors:
  "readNotes C opts ar p rels st = Inr (x, st') \<Longrightarrow> errors st' = errors st"
  by (auto simp: readNotes_def bindE_def dest!: readXml_errors
      split: sum.splits prod.splits if_splits option.splits)

lemma slideStep_errors:
  "slideStep C opts ar presRels acc entry = Inr acc' \<Longrightarrow>
   errors (snd acc') = errors (snd acc)"
  by (cases acc; cases entry)
     (auto simp: bindE_def Let_def
      dest!: readXml_errors parseRelationships_errors readNotes_errors
      split: sum.splits prod.splits if_splits option.splits)

lemma parseSlides_errors:
  assumes "parseSlides C opts ar st = Inr (slides, st')"
  shows "errors st' = errors st"
proof -
  from assms consider
      (empty) x where "readXml C ar ''ppt/presentation.xml'' st = Inr (x, st')"
    | (loop) x st1 presRels st2 ids where
        "readXml C ar ''ppt/presentation.xml'' st = Inr (x, st1)"
        "parseRelationships C ar ''ppt/presentation.xml'' st1 = Inr (presRels, st2)"
        "foldE (slideStep C opts ar presRels) ids ([], st2) = Inr (slides, st')"
    by (auto simp: parseSlides_def bindE_def Let_def split: sum.splits prod.splits if_splits)
  then show ?thesis
  proof cases
    case empty
    then show ?thesis by (rule readXml_errors)
  next
    case loop
    have "errors (snd (slides, st')) = errors st2"
      using foldE_invariant [where P = "\<lambda>a. errors (snd a) = errors st2"
          and f = "slideStep C opts ar presRels", OF _ loop(3)]
      by (simp add: slideStep_errors)
    with readXml_errors [OF loop(1)] parseRelationships_errors [OF loop(2)]
    show ?thesis by simp
  qed
qed

lemma parse_result_errors:
  assumes "PPTXParser_parse C opts ar = Inr r"
  shows "result_errors r = []"
proof -
  from assms obtain st1 presRels st2 st3 st4 st5 props st6 meta st7 slides st8 where
    s: "parseContentTypes C ar reset = Inr st1"
       "parseRelationships C ar ''ppt/presentation.xml'' st1 = Inr (presRels, st2)"
       "parseThemes C ar st2 = Inr st3"
       "parseSlideMasters C ar st3 = Inr st4"
       "parseSlideLayouts C ar st4 = Inr st5"
       "parsePresentationProperties C ar st5 = Inr (props, st6)"
       "parseMetadata C ar st6 = Inr (meta, st7)"
       "parseSlides C opts ar st7 = Inr (slides, st8)"
    and r: "result_errors r = filter (\<lambda>e. \<not> err_fatal e) (errors st8)"
    by (auto simp: PPTXParser_parse_def bindE_def split: sum.splits prod.splits)
  have "errors st8 = errors (reset :: ('a, 'b) ParserState)"
    using parseContentTypes_errors [OF s(1)] parseRelationships_errors [OF s(2)]
      parseThemes_errors [OF s(3)] parseSlideMasters_errors [OF s(4)]
      parseSlideLayouts_errors [OF s(5)] parsePresentationProperties_errors [OF s(6)]
      parseMetadata_errors [OF s(7)] parseSlides_errors [OF s(8)]
    by simp
  with r show ?thesis by (simp add: reset_def)
qed

text \<open>
  Claim C7, as the code has it: \<open>parse\<close> aborts with a thrown failure, returning no result,
  when \<open>[Content_Types].xml\<close> or \<open>ppt/presentation.xml\<close> is missing from the archive, or
  when the XML library throws on the text of one of these two parts; it aborts in the same
  way when the XML library throws on the text of a theme part, so an archive whose two
  required parts are sound is not thereby parsed. A text that is not well-formed and on which
  the XML library does not throw aborts nothing by itself. The outcome is either a thrown
  failure or a complete result (the presentation, the warnings and the non-fatal errors), and
  a result that is returned carries no error.
\<close>

theorem parse_all_or_nothing:
  "(map_of ar ''[Content_Types].xml'' = None \<longrightarrow>
      PPTXParser_parse C opts ar = Inl (Error ''Missing [Content_Types].xml'')) \<and>
   (map_of ar ''[Content_Types].xml'' = Some content \<and> xml_parse C content = None \<longrightarrow>
      PPTXParser_parse C opts ar = Inl (Error ''Failed to parse XML'')) \<and>
   (map_of ar ''ppt/presentation.xml'' = None \<longrightarrow> (\<exists>e. PPTXParser_parse C opts ar = Inl e)) \<and>
   (map_of ar ''ppt/presentation.xml'' = Some content \<and> xml_parse C content = None \<longrightarrow>
      (\<exists>e. PPTXParser_parse C opts ar = Inl e)) \<and>
   (map_of ar path = Some content \<and> xml_parse C content = None \<and>
    startsWith path ''ppt/theme/'' \<and> endsWith path ''.xml'' \<longrightarrow>
      (\<exists>e. PPTXParser_parse C opts ar = Inl e)) \<and>
   (PPTXParser_parse C opts ar = Inr r \<longrightarrow> result_errors r = [])"
proof (intro conjI impI)
  assume "map_of ar ''[Content_Types].xml'' = None"
  then show "PPTXParser_parse C opts ar = Inl (Error ''Missing [Content_Types].xml'')"
    by (simp add: PPTXParser_parse_def parseContentTypes_missing bindE_def)
next
  assume "map_of ar ''[Content_Types].xml'' = Some content \<and> xml_parse C content = None"
  then show "PPTXParser_parse C opts ar = Inl (Error ''Failed to parse XML'')"
    by (simp add: PPTXParser_parse_def parseContentTypes_xml_throws bindE_def)
next
  assume "map_of ar ''ppt/presentation.xml'' = None"
  then show "\<exists>e. PPTXParser_parse C opts ar = Inl e"
    by (intro parse_fails_at_properties) (simp add: parsePresentationProperties_missing)
next
  assume "map_of ar ''ppt/presentation.xml'' = Some content \<and> xml_parse C content = None"
  then show "\<exists>e. PPTXParser_parse C opts ar = Inl e"
    by (intro parse_fails_at_properties) (simp add: parsePresentationProperties_xml_throws)
next
  assume "map_of ar path = Some content \<and> xml_parse C content = None \<and>
    startsWith path ''ppt/theme/'' \<and> endsWith path ''.xml''"
  then show "\<exists>e. PPTXParser_parse C opts ar = Inl e"
    by (intro parse_fails_at_themes parseThemes_xml_throws) auto
next
  assume "PPTXParser_parse C opts ar = Inr r"
  then show "result_errors r = []" by (rule parse_result_errors)
qed


theorem parse_all_or_nothing_witness:
  "PPTXParser_parse sampleC sampleOpts [] = Inl (Error ''Missing [Content_Types].xml'') \<and>
   PPTXParser_parse sampleC sampleOpts [(''[Content_Types].xml'', ''<Types'')] =
     Inl (Error ''Failed to parse XML'') \<and>
   (\<exists>e. PPTXParser_parse sampleC sampleOpts [(''[Content_Types].xml'', ''<Types/>'')] = Inl e) \<and>
   (\<exists>e. PPTXParser_parse sampleC sampleOpts
      [(''[Content_Types].xml'', ''<Types/>''), (''ppt/presentation.xml'', ''<p:presentation'')] = Inl e) \<and>
   (\<exists>e. PPTXParser_parse sampleC sampleOpts
      (archiveWith ''<Relationships image/>'' @ [(''ppt/theme/theme1.xml'', ''<a:theme'')]) = Inl e) \<and>
   (\<exists>r. PPTXParser_parse sampleC sampleOpts (archiveWith ''<Relationships image/>'') = Inr r \<and>
        result_errors r = [])"
proof -
  have bad: "xml_parse sampleC ''<Types'' = None" "xml_parse sampleC ''<p:presentation'' = None"
      "xml_parse sampleC ''<a:theme'' = None"
    unfolding sampleC_def sampleTrees_def by code_simp+
  have 1: "PPTXParser_parse sampleC sampleOpts [] = Inl (Error ''Missing [Content_Types].xml'')"
    using parse_all_or_nothing [where ar = "[]" and C = sampleC and opts = sampleOpts] by simp
  have 2: "PPTXParser_parse sampleC sampleOpts [(''[Content_Types].xml'', ''<Types'')] =
     Inl (Error ''Failed to parse XML'')"
    using parse_all_or_nothing [where ar = "[(''[Content_Types].xml'', ''<Types'')]"
        and C = sampleC and opts = sampleOpts and content = "''<Types''"] bad
    by simp
  have 3: "\<exists>e. PPTXParser_parse sampleC sampleOpts [(''[Content_Types].xml'', ''<Types/>'')] = Inl e"
    using parse_all_or_nothing [where ar = "[(''[Content_Types].xml'', ''<Types/>'')]"
        and C = sampleC and opts = sampleOpts]
    by simp
  have 4: "\<exists>e. PPTXParser_parse sampleC sampleOpts
      [(''[Content_Types].xml'', ''<Types/>''), (''ppt/presentation.xml'', ''<p:presentation'')] = Inl e"
    using parse_all_or_nothing [where ar = "[(''[Content_Types].xml'', ''<Types/>''),
          (''ppt/presentation.xml'', ''<p:presentation'')]"
        and C = sampleC and opts = sampleOpts and content = "''<p:presentation''"] bad
    by simp
  have th: "map_of (archiveWith ''<Relationships image/>'' @ [(''ppt/theme/theme1.xml'', ''<a:theme'')])
      ''ppt/theme/theme1.xml'' = Some ''<a:theme''"
    by (simp add: archiveWith_def)
  have pe: "startsWith ''ppt/theme/theme1.xml'' ''ppt/theme/''" "endsWith ''ppt/theme/theme1.xml'' ''.xml''"
    by (simp_all add: startsWith_def endsWith_def)
  have 5: "\<exists>e. PPTXParser_parse sampleC sampleOpts
      (archiveWith ''<Relationships image/>'' @ [(''ppt/theme/theme1.xml'', ''<a:theme'')]) = Inl e"
    using parse_all_or_nothing [where ar = "archiveWith ''<Relationships image/>'' @
          [(''ppt/theme/theme1.xml'', ''<a:theme'')]"
        and C = sampleC and opts = sampleOpts and content = "''<a:theme''"
        and path = "''ppt/theme/theme1.xml''"] bad th pe
    by simp
  have "slideLinks (PPTXParser_parse sampleC sampleOpts (archiveWith ''<Relationships image/>'')) =
      Some [([], [])]"
    unfolding sampleC_def sampleOpts_def archiveWith_def sampleTrees_def relsDoc_def relElem_def
    by code_simp
  then obtain r where r: "PPTXParser_parse sampleC sampleOpts (archiveWith ''<Relationships image/>'') = Inr r"
    by (cases "PPTXParser_parse sampleC sampleOpts (archiveWith ''<Relationships image/>'')")
       (simp_all add: slideLinks_def)
  with parse_all_or_nothing [where ar = "archiveWith ''<Relationships image/>''"
        and C = sampleC and opts = sampleOpts and r = r]
  have 6: "\<exists>r. PPTXParser_parse sampleC sampleOpts (archiveWith ''<Relationships image/>'') = Inr r \<and>
        result_errors r = []"
    by simp
  from 1 2 3 4 5 6 show ?thesis by (intro conjI)
qed

text \<open>The claim as stated fails in both directions. In the first archive both required
  parts are present and well-formed, and \<open>parse\<close> still aborts, on a theme part on which the
  XML library throws. In the second the elements of \<open>ppt/presentation.xml\<close> are not closed,
  the XML library does not throw on it, and \<open>parse\<close> returns a result.\<close>

theorem parse_optional_part_counterexample:
  "map_of (archiveWith ''<Relationships image/>'' @ [(''ppt/theme/theme1.xml'', ''<a:theme'')])
     ''[Content_Types].xml'' = Some ''<Types/>'' \<and>
   xml_parse sampleC ''<Types/>'' \<noteq> None \<and>
   map_of (archiveWith ''<Relationships image/>'' @ [(''ppt/theme/theme1.xml'', ''<a:theme'')])
     ''ppt/presentation.xml'' = Some ''<p:presentation/>'' \<and>
   xml_parse sampleC ''<p:presentation/>'' \<noteq> None \<and>
   PPTXParser_parse sampleC sampleOpts
     (archiveWith ''<Relationships image/>'' @ [(''ppt/theme/theme1.xml'', ''<a:theme'')]) =
     Inl (Error ''Failed to parse XML'') \<and>
   map_of unclosedArchive ''ppt/presentation.xml'' =
     Some ''<p:presentation><p:sldSz><p:sldIdLst><p:sldId>'' \<and>
   xml_parse lenientC ''<p:presentation><p:sldSz><p:sldIdLst><p:sldId>'' \<noteq> None \<and>
   slideLinks (PPTXParser_parse lenientC sampleOpts unclosedArchive) = Some [([], [])]"
  unfolding lenientC_def unclosedArchive_def sampleC_def sampleOpts_def archiveWith_def
    sampleTrees_def relsDoc_def relElem_def slideLinks_def
  by code_simp

section \<open>A slide without a layout\<close>

lemma firstOfKind_none:
  "\<forall>(k, e) \<in> set rels. \<exists>s. rel_type e = JStr s \<and> \<not> includes_js s kind \<Longrightarrow>
   firstOfKind rels kind = Inr None"
  by (induction rels) (auto simp: bindE_def includesT_def)

lemma readXml_layouts: "readXml C ar path st = Inr (x, st') \<Longrightarrow> layouts st' = layouts st"
  by (auto simp: readXml_def addWarning_def split: option.splits)

lemma parseRelationships_layouts:
  "parseRelationships C ar p st = Inr (rels, st') \<Longrightarrow> layouts st' = layouts st"
  by (auto simp: parseRelationships_def bindE_def Let_def dest: readXml_layouts
      split: option.splits sum.splits prod.splits)

lemma slideLinkage_none:
  "firstOfKind slideRels ''slideLayout'' = Inr None \<Longrightarrow> map_of lts [] = None \<Longrightarrow>
   slideLinkage lts slidePath slideRels = Inr ([], [])"
  by (simp add: slideLinkage_def bindE_def)

lemma slideLinkage_dangling:
  "firstOfKind slideRels ''slideLayout'' = Inr (Some lrel) \<Longrightarrow> rel_target lrel = JStr ltarget \<Longrightarrow>
   map_of lts (resolvePath slidePath ltarget) = None \<Longrightarrow>
   slideLinkage lts slidePath slideRels = Inr (resolvePath slidePath ltarget, [])"
  by (simp add: slideLinkage_def bindE_def resolvePathT_def)

lemma slideStep_reaches_linkage:
  assumes "sldId \<noteq> JUndefined" "sldId \<noteq> JNull"
    and "map_of presRels (orElse (getProp sldId ''@_r:id'') (getProp sldId ''@_rid'')) = Some rel"
    and "rel_target rel = JStr target"
    and "slidePath = ''ppt/'' @ replaceFirst ''../'' [] target"
    and "map_of ar slidePath = Some content" "xml_parse C content = Some slideXml" "truthy slideXml"
    and "parseRelationships C ar slidePath st = Inr (slideRels, st1)"
    and "readNotes C opts ar slidePath slideRels st1 = Inr (notesXml, st2)"
    and "slide_body C slideXml slideRels notesXml = Inr body"
    and "slideLinkage (layouts st1) slidePath slideRels = Inr (lId, mId)"
  shows "slideStep C opts ar presRels (slides, st) (i, sldId) =
     Inr (slides @ [\<lparr> slide_id = parseInt10 (toStr (getProp sldId ''@_id'')), slide_index = i,
                        layoutId = lId, masterId = mId, slide_body_of = body \<rparr>], st2)"
proof -
  have r: "readXml C ar (''ppt/'' @ replaceFirst ''../'' [] target) st = Inr (slideXml, st)"
    using assms(5,6,7) by (simp add: readXml_def)
  show ?thesis
    using assms(1-4,8-12) r unfolding assms(5)
    by (simp add: propT_def bindE_def Let_def replaceT_def parseSlide_def)
qed


text \<open>
  Claim C8, as the code has it. Take a slide that the presentation lists, whose part is read
  and whose notes and body parse. When none of its relationships has a type that includes
  \<open>slideLayout\<close>, the slide is parsed, with \<open>layoutId\<close> and \<open>masterId\<close> both empty. When
  its first \<open>slideLayout\<close> relationship names a target that is no parsed layout, the slide
  is parsed as well, with \<open>masterId\<close> empty and \<open>layoutId\<close> the resolved path of that
  target. (The layout registry has no entry under the empty id: its keys are part paths.)
\<close>

theorem slide_layout_linkage:
  assumes "sldId \<noteq> JUndefined" "sldId \<noteq> JNull"
    and "map_of presRels (orElse (getProp sldId ''@_r:id'') (getProp sldId ''@_rid'')) = Some rel"
    and "rel_target rel = JStr target"
    and "slidePath = ''ppt/'' @ replaceFirst ''../'' [] target"
    and "map_of ar slidePath = Some content" "xml_parse C content = Some slideXml" "truthy slideXml"
    and "parseRelationships C ar slidePath st = Inr (slideRels, st1)"
    and "readNotes C opts ar slidePath slideRels st1 = Inr (notesXml, st2)"
    and "slide_body C slideXml slideRels notesXml = Inr body"
  shows
   "((\<forall>(k, e) \<in> set slideRels. \<exists>s. rel_type e = JStr s \<and> \<not> includes_js s ''slideLayout'') \<and>
     map_of (layouts st) [] = None \<longrightarrow>
       slideStep C opts ar presRels (slides, st) (i, sldId) =
         Inr (slides @ [\<lparr> slide_id = parseInt10 (toStr (getProp sldId ''@_id'')), slide_index = i,
                            layoutId = [], masterId = [], slide_body_of = body \<rparr>], st2)) \<and>
    (firstOfKind slideRels ''slideLayout'' = Inr (Some lrel) \<and> rel_target lrel = JStr ltarget \<and>
     map_of (layouts st) (resolvePath slidePath ltarget) = None \<longrightarrow>
       slideStep C opts ar presRels (slides, st) (i, sldId) =
         Inr (slides @ [\<lparr> slide_id = parseInt10 (toStr (getProp sldId ''@_id'')), slide_index = i,
                            layoutId = resolvePath slidePath ltarget, masterId = [],
                            slide_body_of = body \<rparr>], st2))"
proof (intro conjI impI)
  have l: "layouts st1 = layouts st" using assms(9) by (rule parseRelationships_layouts)
  {
    assume h: "(\<forall>(k, e) \<in> set slideRels. \<exists>s. rel_type e = JStr s \<and> \<not> includes_js s ''slideLayout'') \<and>
       map_of (layouts st) [] = None"
    then have "slideLinkage (layouts st1) slidePath slideRels = Inr ([], [])"
      using l by (simp add: slideLinkage_none firstOfKind_none)
    from slideStep_reaches_linkage [OF assms this]
    show "slideStep C opts ar presRels (slides, st) (i, sldId) =
         Inr (slides @ [\<lparr> slide_id = parseInt10 (toStr (getProp sldId ''@_id'')), slide_index = i,
                            layoutId = [], masterId = [], slide_body_of = body \<rparr>], st2)" .
  }
  {
    assume h: "firstOfKind slideRels ''slideLayout'' = Inr (Some lrel) \<and> rel_target lrel = JStr ltarget \<and>
       map_of (layouts st) (resolvePath slidePath ltarget) = None"
    then have "slideLinkage (layouts st1) slidePath slideRels = Inr (resolvePath slidePath ltarget, [])"
      using l by (simp add: slideLinkage_dangling)
    from slideStep_reaches_linkage [OF assms this]
    show "slideStep C opts ar presRels (slides, st) (i, sldId) =
         Inr (slides @ [\<lparr> slide_id = parseInt10 (toStr (getProp sldId ''@_id'')), slide_index = i,
                            layoutId = resolvePath slidePath ltarget, masterId = [],
                            slide_body_of = body \<rparr>], st2)" .
  }
qed

theorem slide_layout_linkage_witness:
  "slideStep sampleC sampleOpts (archiveWith ''<Relationships image/>'') samplePresRels
     ([], reset) (0, sampleSldId) =
     Inr ([\<lparr> slide_id = Fin 256, slide_index = 0, layoutId = [], masterId = [],
              slide_body_of = () \<rparr>], withRels imageRels) \<and>
   slideStep sampleC sampleOpts (archiveWith ''<Relationships layout9/>'') samplePresRels
     ([], reset) (0, sampleSldId) =
     Inr ([\<lparr> slide_id = Fin 256, slide_index = 0, layoutId = ''ppt/slideLayouts/slideLayout9.xml'',
              masterId = [], slide_body_of = () \<rparr>], withRels layout9Rels) \<and>
   slideLinks (PPTXParser_parse sampleC sampleOpts (archiveWith ''<Relationships image/>'')) =
     Some [([], [])]"
proof -
  let ?rel = "\<lparr> rel_target = JStr ''slides/slide1.xml'',
     rel_type = JStr ''http://schemas.openxmlformats.org/officeDocument/2006/relationships/slide'' \<rparr>"
  let ?lrel = "\<lparr> rel_target = JStr ''../slideLayouts/slideLayout9.xml'',
     rel_type = JStr ''http://schemas.openxmlformats.org/officeDocument/2006/relationships/slideLayout'' \<rparr>"
  let ?xml = "JObj [(''p:sld'', JObj [(''p:cSld'', JObj [])])]"
  have 1: "sampleSldId \<noteq> JUndefined" "sampleSldId \<noteq> JNull"
    by (simp_all add: sampleSldId_def relElem_def)
  have 3: "map_of samplePresRels (orElse (getProp sampleSldId ''@_r:id'') (getProp sampleSldId ''@_rid''))
      = Some ?rel"
    unfolding samplePresRels_def sampleSldId_def relElem_def by code_simp
  have 4: "rel_target ?rel = JStr ''slides/slide1.xml''" by simp
  have 5: "''ppt/slides/slide1.xml'' = ''ppt/'' @ replaceFirst ''../'' [] ''slides/slide1.xml''"
    by code_simp
  have 6: "map_of (archiveWith t) ''ppt/slides/slide1.xml'' = Some ''<p:sld/>''" for t
    by (simp add: archiveWith_def)
  have 7: "xml_parse sampleC ''<p:sld/>'' = Some ?xml"
    unfolding sampleC_def sampleTrees_def relsDoc_def relElem_def by code_simp
  have 8: "truthy ?xml" by simp
  have 9: "parseRelationships sampleC (archiveWith ''<Relationships image/>'') ''ppt/slides/slide1.xml''
      reset = Inr (imageRels, withRels imageRels)"
    unfolding sampleC_def archiveWith_def sampleTrees_def relsDoc_def relElem_def imageRels_def
      withRels_def
    by code_simp
  have 12: "parseRelationships sampleC (archiveWith ''<Relationships layout9/>'') ''ppt/slides/slide1.xml''
      reset = Inr (layout9Rels, withRels layout9Rels)"
    unfolding sampleC_def archiveWith_def sampleTrees_def relsDoc_def relElem_def layout9Rels_def
      withRels_def
    by code_simp
  have 10: "readNotes sampleC sampleOpts (archiveWith ''<Relationships image/>'') ''ppt/slides/slide1.xml''
      imageRels (withRels imageRels) = Inr (JNull, withRels imageRels)"
    unfolding sampleC_def sampleOpts_def archiveWith_def imageRels_def withRels_def
    by code_simp
  have 13: "readNotes sampleC sampleOpts (archiveWith ''<Relationships layout9/>'') ''ppt/slides/slide1.xml''
      layout9Rels (withRels layout9Rels) = Inr (JNull, withRels layout9Rels)"
    unfolding sampleC_def sampleOpts_def archiveWith_def layout9Rels_def withRels_def
    by code_simp
  have 11: "slide_body sampleC ?xml rels JNull = Inr ()" for rels
    by (simp add: sampleC_def)
  have n: "\<not> includes_js ''http://schemas.openxmlformats.org/officeDocument/2006/relationships/image''
      ''slideLayout''"
    by code_simp
  have a: "(\<forall>(k, e) \<in> set imageRels. \<exists>s. rel_type e = JStr s \<and> \<not> includes_js s ''slideLayout'') \<and>
      map_of (layouts (reset :: (unit, unit) ParserState)) [] = None"
    using n by (simp add: imageRels_def reset_def)
  have f: "firstOfKind layout9Rels ''slideLayout'' = Inr (Some ?lrel)"
    unfolding layout9Rels_def by code_simp
  have p: "resolvePath ''ppt/slides/slide1.xml'' ''../slideLayouts/slideLayout9.xml'' =
      ''ppt/slideLayouts/slideLayout9.xml''"
    by code_simp
  have b: "firstOfKind layout9Rels ''slideLayout'' = Inr (Some ?lrel) \<and>
      rel_target ?lrel = JStr ''../slideLayouts/slideLayout9.xml'' \<and>
      map_of (layouts (reset :: (unit, unit) ParserState))
        (resolvePath ''ppt/slides/slide1.xml'' ''../slideLayouts/slideLayout9.xml'') = None"
    using f by (simp add: reset_def)
  have i: "parseInt10 (toStr (getProp sampleSldId ''@_id'')) = Fin 256"
    unfolding sampleSldId_def relElem_def by code_simp
  from slide_layout_linkage [OF 1 3 4 5 6 7 8 9 10 11, of "[]" 0] a i
  have A: "slideStep sampleC sampleOpts (archiveWith ''<Relationships image/>'') samplePresRels
     ([], reset) (0, sampleSldId) =
     Inr ([\<lparr> slide_id = Fin 256, slide_index = 0, layoutId = [], masterId = [],
              slide_body_of = () \<rparr>], withRels imageRels)"
    by simp
  from slide_layout_linkage [OF 1 3 4 5 6 7 8 12 13 11, of "[]" 0 ?lrel
      "''../slideLayouts/slideLayout9.xml''"] b i p
  have B: "slideStep sampleC sampleOpts (archiveWith ''<Relationships layout9/>'') samplePresRels
     ([], reset) (0, sampleSldId) =
     Inr ([\<lparr> slide_id = Fin 256, slide_index = 0, layoutId = ''ppt/slideLayouts/slideLayout9.xml'',
              masterId = [], slide_body_of = () \<rparr>], withRels layout9Rels)"
    by simp
  have W: "slideLinks (PPTXParser_parse sampleC sampleOpts (archiveWith ''<Relationships image/>'')) =
     Some [([], [])]"
    unfolding sampleC_def sampleOpts_def archiveWith_def sampleTrees_def relsDoc_def relElem_def
    by code_simp
  from A B W show ?thesis by (intro conjI)
qed

text \<open>The claim as stated fails for a layout relationship that cannot be resolved: the
  slide of this archive names the layout part \<open>ppt/slideLayouts/slideLayout9.xml\<close>, which
  the archive does not have; the presentation parses, and the slide's \<open>layoutId\<close> is that
  path, not the empty string.\<close>

theorem dangling_layout_counterexample:
  "map_of (archiveWith ''<Relationships layout9/>'') ''ppt/slideLayouts/slideLayout9.xml'' = None \<and>
   slideLinks (PPTXParser_parse sampleC sampleOpts (archiveWith ''<Relationships layout9/>'')) =
     Some [(''ppt/slideLayouts/slideLayout9.xml'', [])]"
  unfolding sampleC_def sampleOpts_def archiveWith_def sampleTrees_def relsDoc_def relElem_def
  by code_simp

end
